theory Spec2Isabelle
  imports Complex_Main "HOL-Library.Sublist"
begin

section \<open>JavaScript strings\<close>

text \<open>
  A JavaScript string is modelled as a \<^typ>\<open>string\<close> holding its UTF-8 bytes; the Korean
  literals of the source are written byte by byte. Equality, emptiness (falsiness) and
  the search for an ASCII substring agree with the JavaScript operations on such strings.
\<close>

text \<open>\<^verbatim>\<open>haystack.includes(needle)\<close>\<close>

fun js_includes :: "string \<Rightarrow> string \<Rightarrow> bool" where
  "js_includes [] needle = (needle = [])"
| "js_includes (c # cs) needle = (prefix needle (c # cs) \<or> js_includes cs needle)"

section \<open>The fall-alert hook: \<^verbatim>\<open>src/front/src/hooks/useFallAlert.js\<close>\<close>

text \<open>
  The hook holds four state cells (\<^verbatim>\<open>useState\<close>; the fifth, the constant
  \<^verbatim>\<open>maxReconnectAttempts\<close>, is never set), three refs (\<^verbatim>\<open>useRef\<close>), one effect with
  the dependencies
  \<^verbatim>\<open>[isSubscriptionActive, reconnectAttempts]\<close>, and two handlers. The model is a
  transition system: every callback the code registers (channel status, INSERT event,
  timer, handler) is an event, its body is a function on the state, and after the body the
  effect is re-run when a dependency has changed (React 18 batches the state updates of one
  callback; \<^verbatim>\<open>react ^18.2.0\<close> in the project's package list). State read by a callback
  through its closure is the value captured when the channel was created; refs are read
  live. Toasts are recorded; the output to the console is not.
\<close>

definition maxReconnectAttempts :: nat where
  "maxReconnectAttempts = 3"

text \<open>The status string handed to the \<^verbatim>\<open>subscribe\<close> callback.\<close>

datatype sub_status = SUBSCRIBED | CHANNEL_ERROR | TIMED_OUT | CLOSED | OTHER_STATUS string

text \<open>
  The texts given to \<^verbatim>\<open>setConnectionStatus\<close>, one constructor per literal or template
  of the source (line numbers of useFallAlert.js):
  \<open>Connecting\<close> l.18 and l.41; \<open>SubscriptionDisabled\<close> l.30; \<open>EnvError\<close> l.49;
  \<open>SecurityError\<close> l.57; \<open>ErrorMsg m\<close> l.105; \<open>RawStatus st\<close> l.108;
  \<open>ReconnectWaiting n m\<close> l.136; \<open>ConnectionFailed\<close> l.153;
  \<open>ReconnectPreparing n m\<close> l.170; \<open>ConnectionClosed\<close> l.178; \<open>Disconnected\<close> l.204.
\<close>

datatype conn_status =
    Connecting
  | SubscriptionDisabled
  | EnvError
  | SecurityError
  | ErrorMsg string
  | RawStatus sub_status
  | ReconnectWaiting nat nat
  | ConnectionFailed
  | ReconnectPreparing nat nat
  | ConnectionClosed
  | Disconnected

text \<open>The toasts the hook shows, again one constructor per call site.\<close>

datatype toast =
    ToastEnvError
  | ToastSecurityError
  | ToastFallDetected
  | ToastConnError string
  | ToastActivated
  | ToastReconnect sub_status nat nat nat
  | ToastGiveUp

text \<open>
  The bodies of the \<^verbatim>\<open>setTimeout\<close> callbacks: \<open>ReconnectFire n\<close> is the delayed
  reconnection of l.144-150 and l.172-176 with \<^verbatim>\<open>nextAttempt = n\<close>; \<open>Reactivate\<close> is
  \<^verbatim>\<open>() => setIsSubscriptionActive(true)\<close> (l.147, l.175, l.222, l.249).
\<close>

datatype timer_action = ReconnectFire nat | Reactivate

record timer =
  timer_id :: nat
  timer_delay :: nat
  timer_action :: timer_action

text \<open>A channel with the state its callbacks captured when the effect created it.\<close>

record channel =
  channel_id :: nat
  cap_active :: bool
  cap_attempts :: nat

record env =
  supabaseUrl :: "string option"
  supabaseAnonKey :: "string option"

record hook =
  isFallDetected :: bool
  isSubscriptionActive :: bool
  connectionStatus :: conn_status
  reconnectAttempts :: nat
  reconnectTimeoutRef :: "nat option"
  channelRef :: "nat option"
  isReconnectingRef :: bool
  has_cleanup :: bool
  channels :: "channel list"
  removed :: "nat list"
  timers :: "timer list"
  next_id :: nat
  toasts :: "toast list"
  navigations :: "string list"
  phone_alerts :: nat

text \<open>
  \<open>has_cleanup\<close>: whether the last run of the effect returned its cleanup function (it
  does only when it reached the subscription). \<open>channels\<close>: every channel the effect has
  opened, in order; \<open>removed\<close>: the ids given to \<^verbatim>\<open>supabase.removeChannel\<close>;
  \<open>timers\<close>: the pending \<^verbatim>\<open>setTimeout\<close> callbacks; \<open>navigations\<close>: the values
  assigned to \<^verbatim>\<open>window.location.href\<close>; \<open>phone_alerts\<close>: the number of
  \<^verbatim>\<open>alert\<close> calls of handleEmergencyCall.
\<close>

definition set_timeout :: "nat \<Rightarrow> timer_action \<Rightarrow> hook \<Rightarrow> hook" where
  "set_timeout d a s =
     s\<lparr>timers := timers s @ [\<lparr>timer_id = next_id s, timer_delay = d, timer_action = a\<rparr>],
       next_id := Suc (next_id s)\<rparr>"

definition clear_timeout :: "nat \<Rightarrow> hook \<Rightarrow> hook" where
  "clear_timeout i s = s\<lparr>timers := filter (\<lambda>t. timer_id t \<noteq> i) (timers s)\<rparr>"

text \<open>l.116-120 and l.195-199: clear the reconnection timer when the ref holds one.\<close>

definition clear_reconnect_timer :: "hook \<Rightarrow> hook" where
  "clear_reconnect_timer s =
     (case reconnectTimeoutRef s of
        None \<Rightarrow> s
      | Some i \<Rightarrow> (clear_timeout i s)\<lparr>reconnectTimeoutRef := None\<rparr>)"

text \<open>l.62-67 and l.206-210: remove the channel the ref holds.\<close>

definition remove_channel :: "hook \<Rightarrow> hook" where
  "remove_channel s =
     (case channelRef s of
        None \<Rightarrow> s
      | Some c \<Rightarrow> s\<lparr>removed := removed s @ [c], channelRef := None\<rparr>)"

text \<open>The backoff rule of l.133: \<^verbatim>\<open>Math.min(5000 * nextAttempt, 30000)\<close>.\<close>

definition reconnect_delay :: "nat \<Rightarrow> nat" where
  "reconnect_delay nextAttempt = min (5000 * nextAttempt) 30000"

text \<open>The effect body, l.27-189.\<close>

definition effect :: "env \<Rightarrow> hook \<Rightarrow> hook" where
  "effect e s =
     (if \<not> isSubscriptionActive s then
        s\<lparr>connectionStatus := SubscriptionDisabled, has_cleanup := False\<rparr>
      else if isReconnectingRef s then s\<lparr>has_cleanup := False\<rparr>
      else
        (case (supabaseUrl e, supabaseAnonKey e) of
           (Some url, Some key) \<Rightarrow>
             if url = [] \<or> key = [] then
               s\<lparr>connectionStatus := EnvError, toasts := toasts s @ [ToastEnvError],
                 has_cleanup := False\<rparr>
             else if js_includes key ''service_role'' then
               s\<lparr>connectionStatus := SecurityError, toasts := toasts s @ [ToastSecurityError],
                 has_cleanup := False\<rparr>
             else
               (let s1 = remove_channel s;
                    ch = \<lparr>channel_id = next_id s1, cap_active = isSubscriptionActive s1,
                          cap_attempts = reconnectAttempts s1\<rparr>
                in s1\<lparr>connectionStatus := Connecting,
                      channels := channels s1 @ [ch],
                      channelRef := Some (next_id s1),
                      next_id := Suc (next_id s1),
                      has_cleanup := True\<rparr>)
         | _ \<Rightarrow>
             s\<lparr>connectionStatus := EnvError, toasts := toasts s @ [ToastEnvError],
               has_cleanup := False\<rparr>))"

text \<open>The cleanup function the effect returns, l.192-211.\<close>

definition cleanup :: "hook \<Rightarrow> hook" where
  "cleanup s =
     remove_channel
       ((clear_reconnect_timer s)\<lparr>isReconnectingRef := False, connectionStatus := Disconnected\<rparr>)"

text \<open>The \<^verbatim>\<open>subscribe\<close> callback of a channel, l.101-183.\<close>

definition on_subscribe :: "channel \<Rightarrow> sub_status \<Rightarrow> string option \<Rightarrow> hook \<Rightarrow> hook" where
  "on_subscribe ch st err s =
     (case err of
        Some m \<Rightarrow> s\<lparr>connectionStatus := ErrorMsg m, toasts := toasts s @ [ToastConnError m]\<rparr>
      | None \<Rightarrow>
          (let s1 = s\<lparr>connectionStatus := RawStatus st\<rparr> in
           if st = SUBSCRIBED then
             (clear_reconnect_timer (s1\<lparr>reconnectAttempts := 0, isReconnectingRef := False\<rparr>))
               \<lparr>toasts := toasts s1 @ [ToastActivated]\<rparr>
           else if st = CHANNEL_ERROR \<or> st = TIMED_OUT then
             (if cap_attempts ch < maxReconnectAttempts \<and> \<not> isReconnectingRef s1 then
                (let nextAttempt = cap_attempts ch + 1;
                     d = reconnect_delay nextAttempt;
                     s2 = s1\<lparr>isReconnectingRef := True,
                             connectionStatus := ReconnectWaiting nextAttempt maxReconnectAttempts,
                             toasts := toasts s1 @
                               [ToastReconnect st d nextAttempt maxReconnectAttempts]\<rparr>
                 in (set_timeout d (ReconnectFire nextAttempt) s2)
                      \<lparr>reconnectTimeoutRef := Some (next_id s2)\<rparr>)
              else
                s1\<lparr>connectionStatus := ConnectionFailed, isReconnectingRef := False,
                   toasts := toasts s1 @ [ToastGiveUp]\<rparr>)
           else if st = CLOSED then
             (if cap_active ch \<and> \<not> isReconnectingRef s1
                 \<and> cap_attempts ch < maxReconnectAttempts then
                (let nextAttempt = cap_attempts ch + 1;
                     s2 = s1\<lparr>isReconnectingRef := True,
                             connectionStatus :=
                               ReconnectPreparing nextAttempt maxReconnectAttempts\<rparr>
                 in (set_timeout 3000 (ReconnectFire nextAttempt) s2)
                      \<lparr>reconnectTimeoutRef := Some (next_id s2)\<rparr>)
              else s1\<lparr>connectionStatus := ConnectionClosed, isReconnectingRef := False\<rparr>)
           else s1))"

text \<open>The INSERT callback of a channel, l.84-99.\<close>

definition on_insert :: "hook \<Rightarrow> hook" where
  "on_insert s =
     s\<lparr>toasts := toasts s @ [ToastFallDetected], isFallDetected := True,
       isSubscriptionActive := False\<rparr>"

text \<open>The timer callbacks.\<close>

fun run_timer :: "timer_action \<Rightarrow> hook \<Rightarrow> hook" where
  "run_timer (ReconnectFire n) s =
     set_timeout 1000 Reactivate (s\<lparr>reconnectAttempts := n, isSubscriptionActive := False\<rparr>)"
| "run_timer Reactivate s = s\<lparr>isSubscriptionActive := True\<rparr>"

text \<open>handleAlertCancel, l.215-225.\<close>

definition handleAlertCancel :: "hook \<Rightarrow> hook" where
  "handleAlertCancel s =
     set_timeout 2000 Reactivate
       (s\<lparr>isFallDetected := False, reconnectAttempts := 0, isReconnectingRef := False\<rparr>)"

text \<open>
  handleEmergencyCall, l.228-252; the guardian's phone number is a string, the empty one
  being falsy.
\<close>

definition handleEmergencyCall :: "string \<Rightarrow> hook \<Rightarrow> hook" where
  "handleEmergencyCall guardianPhone s =
     (let s1 = (if guardianPhone \<noteq> []
                then s\<lparr>navigations := navigations s @ [''tel:'' @ guardianPhone]\<rparr>
                else s\<lparr>phone_alerts := Suc (phone_alerts s)\<rparr>)
      in set_timeout 2000 Reactivate
           (s1\<lparr>isFallDetected := False, reconnectAttempts := 0, isReconnectingRef := False\<rparr>))"

text \<open>
  After a callback, React re-renders; when a dependency of the effect has changed it runs
  the cleanup the previous run returned (if any) and then the effect body.
\<close>

definition commit :: "env \<Rightarrow> hook \<Rightarrow> hook \<Rightarrow> hook" where
  "commit e old new =
     (if isSubscriptionActive new \<noteq> isSubscriptionActive old
         \<or> reconnectAttempts new \<noteq> reconnectAttempts old
      then effect e (if has_cleanup new then cleanup new else new)
      else new)"

datatype hook_event =
    SubscribeStatus nat sub_status "string option"
  | InsertEvent nat
  | TimerFire nat
  | AlertCancel
  | EmergencyCall string

text \<open>
  The body of each event. A status or INSERT event names the channel whose callback runs
  (any channel ever opened: a JavaScript closure outlives \<^verbatim>\<open>removeChannel\<close>); a timer
  event names a pending timer, which is removed and run. An event naming no channel or no
  pending timer changes nothing.
\<close>

fun handle :: "hook_event \<Rightarrow> hook \<Rightarrow> hook" where
  "handle (SubscribeStatus c st err) s =
     (case find (\<lambda>ch. channel_id ch = c) (channels s) of
        None \<Rightarrow> s
      | Some ch \<Rightarrow> on_subscribe ch st err s)"
| "handle (InsertEvent c) s =
     (case find (\<lambda>ch. channel_id ch = c) (channels s) of
        None \<Rightarrow> s
      | Some ch \<Rightarrow> on_insert s)"
| "handle (TimerFire i) s =
     (case find (\<lambda>t. timer_id t = i) (timers s) of
        None \<Rightarrow> s
      | Some t \<Rightarrow> run_timer (timer_action t) (clear_timeout i s))"
| "handle AlertCancel s = handleAlertCancel s"
| "handle (EmergencyCall guardianPhone) s = handleEmergencyCall guardianPhone s"

definition step :: "env \<Rightarrow> hook_event \<Rightarrow> hook \<Rightarrow> hook" where
  "step e ev s = commit e s (handle ev s)"

text \<open>The initial values of the state cells and refs (l.16-25), and the first render.\<close>

definition hook0 :: hook where
  "hook0 =
     \<lparr>isFallDetected = False, isSubscriptionActive = True, connectionStatus = Connecting,
      reconnectAttempts = 0, reconnectTimeoutRef = None, channelRef = None,
      isReconnectingRef = False, has_cleanup = False, channels = [], removed = [],
      timers = [], next_id = 1, toasts = [], navigations = [], phone_alerts = 0\<rparr>"

definition mount :: "env \<Rightarrow> hook" where
  "mount e = effect e hook0"

fun run :: "env \<Rightarrow> hook_event list \<Rightarrow> hook \<Rightarrow> hook" where
  "run e [] s = s"
| "run e (ev # evs) s = run e evs (step e ev s)"

inductive reachable :: "env \<Rightarrow> hook \<Rightarrow> bool" for e :: env where
  reachable_mount: "reachable e (mount e)"
| reachable_step: "reachable e s \<Longrightarrow> reachable e (step e ev s)"

subsection \<open>Predicates and concrete states used in the properties of the hook\<close>

text \<open>
  The two early returns of the effect, l.47-60: a Supabase setting is missing (absent or
  empty, both falsy), or the key contains \<^verbatim>\<open>service_role\<close>.
\<close>

definition env_missing :: "env \<Rightarrow> bool" where
  "env_missing e =
     ((case supabaseUrl e of None \<Rightarrow> True | Some url \<Rightarrow> url = [])
      \<or> (case supabaseAnonKey e of None \<Rightarrow> True | Some key \<Rightarrow> key = []))"

definition key_is_service_role :: "env \<Rightarrow> bool" where
  "key_is_service_role e =
     (case supabaseAnonKey e of None \<Rightarrow> False | Some key \<Rightarrow> js_includes key ''service_role'')"

definition env_ok :: "env \<Rightarrow> bool" where
  "env_ok e = (\<not> env_missing e \<and> \<not> key_is_service_role e)"




definition rejected_inv :: "env \<Rightarrow> hook \<Rightarrow> bool" where
  "rejected_inv e s =
     (channels s = [] \<and> channelRef s = None \<and> removed s = [] \<and> isSubscriptionActive s
      \<and> reconnectAttempts s = 0 \<and> list_all (\<lambda>t. timer_action t = Reactivate) (timers s)
      \<and> connectionStatus s = (if env_missing e then EnvError else SecurityError))"


text \<open>Two environments: valid settings, and a key of the service role.\<close>

definition good_env :: env where
  "good_env =
     \<lparr>supabaseUrl = Some ''https://x.supabase.co'', supabaseAnonKey = Some ''anon-key''\<rparr>"

definition service_role_env :: env where
  "service_role_env =
     \<lparr>supabaseUrl = Some ''https://x.supabase.co'',
      supabaseAnonKey = Some ''eyJ.service_role.sig''\<rparr>"



text \<open>
  The states of that run: after the first render, and after the first, second and third
  reconnection (with the failure statuses reported so far).
\<close>

definition after_mount :: hook where
  "after_mount =
     \<lparr>isFallDetected = False, isSubscriptionActive = True, connectionStatus = Connecting,
      reconnectAttempts = 0, reconnectTimeoutRef = None, channelRef = Some 1,
      isReconnectingRef = False, has_cleanup = True,
      channels = [\<lparr>channel_id = 1, cap_active = True, cap_attempts = 0\<rparr>],
      removed = [], timers = [], next_id = 2, toasts = [], navigations = [],
      phone_alerts = 0\<rparr>"






text \<open>The state after an INSERT event on the first channel: the alert is showing.\<close>

definition alert_showing :: hook where
  "alert_showing =
     \<lparr>isFallDetected = True, isSubscriptionActive = False,
      connectionStatus = SubscriptionDisabled,
      reconnectAttempts = 0, reconnectTimeoutRef = None, channelRef = None,
      isReconnectingRef = False, has_cleanup = False,
      channels = [\<lparr>channel_id = 1, cap_active = True, cap_attempts = 0\<rparr>],
      removed = [1], timers = [], next_id = 2, toasts = [ToastFallDetected],
      navigations = [], phone_alerts = 0\<rparr>"

section \<open>The alert modal: \<^verbatim>\<open>src/front/src/components/common/FallAlert.jsx\<close> in \<^verbatim>\<open>App.jsx\<close>\<close>

text \<open>
  The state cells of FallAlert (l.14-15) and whether the interval of its effect (l.24) is
  set.
\<close>

record alert =
  countdown :: int
  isCallInProgress :: bool
  countdown_interval :: bool

text \<open>
  The effect of FallAlert, l.17-36, with the dependency \<^verbatim>\<open>[isVisible]\<close>: React first runs
  the cleanup of the previous run (\<^verbatim>\<open>clearInterval(timer)\<close>, when that run had set the
  interval), then the body.
\<close>

definition alert_effect :: "bool \<Rightarrow> alert \<Rightarrow> alert" where
  "alert_effect isVisible a =
     (let a1 = a\<lparr>countdown_interval := False\<rparr>
      in if \<not> isVisible then a1\<lparr>countdown := 10, isCallInProgress := False\<rparr>
         else a1\<lparr>countdown_interval := True\<rparr>)"

text \<open>
  The application: the hook and the modal, wired as in App.jsx l.16 and l.81-86
  (\<^verbatim>\<open>isVisible={isFallDetected}\<close>, \<^verbatim>\<open>onCancel={onAlertCancel}\<close>,
  \<^verbatim>\<open>onEmergencyCall={onEmergencyCall}\<close>).
\<close>

record app =
  hook_state :: hook
  alert_state :: alert

datatype app_event =
    HookEvent hook_event
  | CountdownTick
  | ClickCancel
  | ClickEmergency

text \<open>
  The callbacks of the modal. \<open>CountdownTick\<close> is the interval callback, l.24-33, whose
  updater calls handleEmergencyCall (l.38-43) when the countdown is at most 1.
  \<open>ClickCancel\<close> and \<open>ClickEmergency\<close> are the two buttons (l.95-114), which exist only
  while the modal is rendered and are disabled while a call is in progress.
\<close>

fun app_handle :: "env \<Rightarrow> string \<Rightarrow> app_event \<Rightarrow> app \<Rightarrow> app" where
  "app_handle e guardianPhone (HookEvent ev) s = s\<lparr>hook_state := step e ev (hook_state s)\<rparr>"
| "app_handle e guardianPhone CountdownTick s =
     (if \<not> countdown_interval (alert_state s) then s
      else if countdown (alert_state s) \<le> 1 then
        \<lparr>hook_state = step e (EmergencyCall guardianPhone) (hook_state s),
         alert_state = (alert_state s)\<lparr>isCallInProgress := True, countdown := 0\<rparr>\<rparr>
      else s\<lparr>alert_state := (alert_state s)\<lparr>countdown := countdown (alert_state s) - 1\<rparr>\<rparr>)"
| "app_handle e guardianPhone ClickCancel s =
     (if isFallDetected (hook_state s) \<and> \<not> isCallInProgress (alert_state s)
      then s\<lparr>hook_state := step e AlertCancel (hook_state s)\<rparr>
      else s)"
| "app_handle e guardianPhone ClickEmergency s =
     (if isFallDetected (hook_state s) \<and> \<not> isCallInProgress (alert_state s)
      then \<lparr>hook_state = step e (EmergencyCall guardianPhone) (hook_state s),
            alert_state = (alert_state s)\<lparr>isCallInProgress := True\<rparr>\<rparr>
      else s)"

text \<open>After a callback the modal is rendered again; its effect runs when \<^verbatim>\<open>isVisible\<close> changed.\<close>

definition app_step :: "env \<Rightarrow> string \<Rightarrow> app_event \<Rightarrow> app \<Rightarrow> app" where
  "app_step e guardianPhone ev s =
     (let s1 = app_handle e guardianPhone ev s
      in if isFallDetected (hook_state s1) \<noteq> isFallDetected (hook_state s)
         then s1\<lparr>alert_state := alert_effect (isFallDetected (hook_state s1)) (alert_state s1)\<rparr>
         else s1)"

definition app_mount :: "env \<Rightarrow> app" where
  "app_mount e =
     \<lparr>hook_state = mount e,
      alert_state = alert_effect False
        \<lparr>countdown = 10, isCallInProgress = False, countdown_interval = False\<rparr>\<rparr>"

fun app_run :: "env \<Rightarrow> string \<Rightarrow> app_event list \<Rightarrow> app \<Rightarrow> app" where
  "app_run e guardianPhone [] s = s"
| "app_run e guardianPhone (ev # evs) s = app_run e guardianPhone evs (app_step e guardianPhone ev s)"

inductive app_reachable :: "env \<Rightarrow> string \<Rightarrow> app \<Rightarrow> bool" for e :: env and guardianPhone :: string
  where
  app_reachable_mount: "app_reachable e guardianPhone (app_mount e)"
| app_reachable_step:
    "app_reachable e guardianPhone s \<Longrightarrow> app_reachable e guardianPhone (app_step e guardianPhone ev s)"

text \<open>The number of times handleEmergencyCall of the hook has run.\<close>

definition emergency_calls :: "hook \<Rightarrow> nat" where
  "emergency_calls h = length (navigations h) + phone_alerts h"

subsection \<open>Predicates and concrete states used in the properties of the modal\<close>

text \<open>
  The invariant of the modal: no call in progress between two callbacks; while the alert
  shows, the interval is set and the countdown is between 1 and 10; while it does not, the
  interval is cleared and the countdown is 10.
\<close>

definition alert_inv :: "app \<Rightarrow> bool" where
  "alert_inv s =
     (\<not> isCallInProgress (alert_state s) \<and>
      (if isFallDetected (hook_state s)
       then countdown_interval (alert_state s) \<and> 1 \<le> countdown (alert_state s)
            \<and> countdown (alert_state s) \<le> 10
       else \<not> countdown_interval (alert_state s) \<and> countdown (alert_state s) = 10))"

text \<open>The application when the alert has just become visible, and when it is hidden.\<close>

definition shown :: "hook \<Rightarrow> app" where
  "shown h =
     \<lparr>hook_state = h,
      alert_state = \<lparr>countdown = 10, isCallInProgress = False, countdown_interval = True\<rparr>\<rparr>"

definition hidden :: "hook \<Rightarrow> app" where
  "hidden h =
     \<lparr>hook_state = h,
      alert_state = \<lparr>countdown = 10, isCallInProgress = False, countdown_interval = False\<rparr>\<rparr>"

definition guardian :: string where
  "guardian = ''01012345678''"

section \<open>JSON values\<close>

text \<open>
  The values a parsed response can hold. \<open>None\<close> of type \<open>json option\<close> stands for
  \<^verbatim>\<open>undefined\<close> (an absent field). JSON numbers are modelled as rationals; the code only
  tests them for zero and stores them.
\<close>

datatype json =
    JNull
  | JBool bool
  | JNum rat
  | JStr string
  | JArr "json list"
  | JObj "(string \<times> json) list"

text \<open>Truthiness, as tested by \<^verbatim>\<open>if (v)\<close>, \<^verbatim>\<open>!v\<close>, \<^verbatim>\<open>a || b\<close> and \<^verbatim>\<open>a && b\<close>.\<close>

fun truthy :: "json \<Rightarrow> bool" where
  "truthy JNull = False"
| "truthy (JBool b) = b"
| "truthy (JNum n) = (n \<noteq> 0)"
| "truthy (JStr s) = (s \<noteq> [])"
| "truthy (JArr vs) = True"
| "truthy (JObj kvs) = True"

fun truthy_opt :: "json option \<Rightarrow> bool" where
  "truthy_opt None = False"
| "truthy_opt (Some v) = truthy v"

text \<open>
  \<^verbatim>\<open>v.key\<close> for the keys the code reads (none of them is \<^verbatim>\<open>length\<close> or an index, so an
  array or a primitive has none of them). An object lists each of its keys once. On
  \<^verbatim>\<open>null\<close> the access would throw; the code reads fields of truthy values only, or
  through \<^verbatim>\<open>?.\<close>.
\<close>

fun field :: "json \<Rightarrow> string \<Rightarrow> json option" where
  "field (JObj kvs) k = map_of kvs k"
| "field v k = None"

text \<open>\<^verbatim>\<open>v?.key\<close>: \<^verbatim>\<open>undefined\<close> when \<open>v\<close> is \<^verbatim>\<open>undefined\<close> or \<^verbatim>\<open>null\<close>.\<close>

fun opt_field :: "json option \<Rightarrow> string \<Rightarrow> json option" where
  "opt_field None k = None"
| "opt_field (Some JNull) k = None"
| "opt_field (Some v) k = field v k"

text \<open>\<^verbatim>\<open>a || d\<close> with a default \<open>d\<close>.\<close>

fun js_or :: "json option \<Rightarrow> json \<Rightarrow> json" where
  "js_or None d = d"
| "js_or (Some v) d = (if truthy v then v else d)"

text \<open>\<^verbatim>\<open>typeof v === 'object'\<close>.\<close>

fun is_object :: "json \<Rightarrow> bool" where
  "is_object JNull = True"
| "is_object (JArr vs) = True"
| "is_object (JObj kvs) = True"
| "is_object v = False"

text \<open>
  \<^verbatim>\<open>'key' in v\<close> throws a TypeError unless \<open>v\<close> is an object (an array is one,
  \<^verbatim>\<open>null\<close> and the primitives are not).
\<close>

fun in_operator_throws :: "json \<Rightarrow> bool" where
  "in_operator_throws (JArr vs) = False"
| "in_operator_throws (JObj kvs) = False"
| "in_operator_throws v = True"

section \<open>The diagnosis polling: \<^verbatim>\<open>src/front/src/pages/GaitAnalysisPage.jsx\<close>\<close>

text \<open>
  A thrown value: \<open>Error v\<close> is \<^verbatim>\<open>new Error(v)\<close>, also used for the rejection of an API
  call; \<open>TypeError\<close> is the error the engine raises for \<^verbatim>\<open>in\<close> on a primitive. The
  model keeps the argument \<open>v\<close>; the message that an alert shows is
  \<^verbatim>\<open>String(v)\<close>, which is \<open>v\<close> itself when \<open>v\<close> is a string. Two errors with different
  arguments may show the same message (\<^verbatim>\<open>String(['a'])\<close> is \<^verbatim>\<open>'a'\<close>): equal errors of the
  model show equal messages, and the converse holds between string arguments only.
\<close>

datatype js_error = Error json | TypeError

text \<open>
  The \<^verbatim>\<open>alert\<close> calls of handleStartAnalysis: l.31 (no user information), l.181
  (analysis complete, with \<^verbatim>\<open>userInfo.name\<close>), l.207 (polling error, with the error
  caught) and l.216 (request failed, with the error caught).
\<close>

datatype page_alert =
    AlertNoUserInfo
  | AlertAnalysisDone "json option"
  | AlertPollingError js_error
  | AlertRequestFailed js_error

text \<open>
  The local variables of one call of handleStartAnalysis that reached the polling:
  \<^verbatim>\<open>diagnosisId\<close>, the counter \<^verbatim>\<open>attempts\<close> shared by all ticks of the call, whether
  the interval \<^verbatim>\<open>checkResult\<close> is still set, and the number of ticks that wait for their
  \<^verbatim>\<open>await checkDiagnosisStatus(...)\<close>.
\<close>

record loop =
  diagnosisId :: json
  attempts :: nat
  interval_set :: bool
  in_flight :: nat

text \<open>
  The page: its state cells (l.11-16), the polling loops started so far (the newest last),
  the pending \<^verbatim>\<open>setTimeout\<close> callbacks of l.179, the alerts shown and the values given
  to \<^verbatim>\<open>console.warn\<close> (l.116).
\<close>

record page =
  gaitData :: "json option"
  isAnalyzing :: bool
  analysisProgress :: json
  analysisMessage :: json
  loops :: "loop list"
  completion_timers :: nat
  page_alerts :: "page_alert list"
  console_warnings :: "json list"

definition maxAttempts :: nat where
  "maxAttempts = 60"

text \<open>The string literals of handleStartAnalysis, as UTF-8 bytes (with a translation).\<close>

text \<open>l.27, the message shown while the request is sent ("sending the diagnosis request...").\<close>

definition msg_sending :: string where
  "msg_sending =
    [CHR 0xEC, CHR 0xA7, CHR 0x84, CHR 0xEB, CHR 0x8B, CHR 0xA8, CHR 0x20, CHR 0xEC, CHR 0x9A,
     CHR 0x94, CHR 0xEC, CHR 0xB2, CHR 0xAD, CHR 0xEC, CHR 0x9D, CHR 0x84, CHR 0x20, CHR 0xEB,
     CHR 0xB3, CHR 0xB4, CHR 0xEB, CHR 0x82, CHR 0xB4, CHR 0xEB, CHR 0x8A, CHR 0x94, CHR 0x20,
     CHR 0xEC, CHR 0xA4, CHR 0x91, CHR ''.'', CHR ''.'', CHR ''.'']"

text \<open>l.55 ("the diagnosis request failed.").\<close>

definition msg_request_failed :: string where
  "msg_request_failed =
    [CHR 0xEC, CHR 0xA7, CHR 0x84, CHR 0xEB, CHR 0x8B, CHR 0xA8, CHR 0x20, CHR 0xEC, CHR 0x9A,
     CHR 0x94, CHR 0xEC, CHR 0xB2, CHR 0xAD, CHR 0xEC, CHR 0x97, CHR 0x90, CHR 0x20, CHR 0xEC,
     CHR 0x8B, CHR 0xA4, CHR 0xED, CHR 0x8C, CHR 0xA8, CHR 0xED, CHR 0x96, CHR 0x88, CHR 0xEC,
     CHR 0x8A, CHR 0xB5, CHR 0xEB, CHR 0x8B, CHR 0x88, CHR 0xEB, CHR 0x8B, CHR 0xA4, CHR ''.'']"

text \<open>l.59 ("LangGraph analysis in progress...").\<close>

definition msg_langgraph :: string where
  "msg_langgraph =
    [CHR 0xEB, CHR 0x9E, CHR 0xAD, CHR 0xEA, CHR 0xB7, CHR 0xB8, CHR 0xEB, CHR 0x9E, CHR 0x98,
     CHR 0xED, CHR 0x94, CHR 0x84, CHR 0x20, CHR 0xEB, CHR 0xB6, CHR 0x84, CHR 0xEC, CHR 0x84,
     CHR 0x9D, CHR 0x20, CHR 0xEC, CHR 0xA4, CHR 0x91, CHR ''.'', CHR ''.'', CHR ''.'']"

text \<open>l.74, the default progress message ("analysing...").\<close>

definition msg_analyzing :: string where
  "msg_analyzing =
    [CHR 0xEB, CHR 0xB6, CHR 0x84, CHR 0xEC, CHR 0x84, CHR 0x9D, CHR 0x20, CHR 0xEC, CHR 0xA4,
     CHR 0x91, CHR ''.'', CHR ''.'', CHR ''.'']"

text \<open>l.85, also the \<^verbatim>\<open>result\<close> text of the placeholder indicators ("the analysis is complete!").\<close>

definition msg_done :: string where
  "msg_done =
    [CHR 0xEB, CHR 0xB6, CHR 0x84, CHR 0xEC, CHR 0x84, CHR 0x9D, CHR 0xEC, CHR 0x9D, CHR 0xB4,
     CHR 0x20, CHR 0xEC, CHR 0x99, CHR 0x84, CHR 0xEB, CHR 0xA3, CHR 0x8C, CHR 0xEB, CHR 0x90,
     CHR 0x98, CHR 0xEC, CHR 0x97, CHR 0x88, CHR 0xEC, CHR 0x8A, CHR 0xB5, CHR 0xEB, CHR 0x8B,
     CHR 0x88, CHR 0xEB, CHR 0x8B, CHR 0xA4, CHR ''!'']"

text \<open>l.184 ("the analysis result could not be received.").\<close>

definition msg_no_result :: string where
  "msg_no_result =
    [CHR 0xEB, CHR 0xB6, CHR 0x84, CHR 0xEC, CHR 0x84, CHR 0x9D, CHR 0x20, CHR 0xEA, CHR 0xB2,
     CHR 0xB0, CHR 0xEA, CHR 0xB3, CHR 0xBC, CHR 0xEB, CHR 0xA5, CHR 0xBC, CHR 0x20, CHR 0xEB,
     CHR 0xB0, CHR 0x9B, CHR 0xEC, CHR 0x9D, CHR 0x84, CHR 0x20, CHR 0xEC, CHR 0x88, CHR 0x98,
     CHR 0x20, CHR 0xEC, CHR 0x97, CHR 0x86, CHR 0xEC, CHR 0x8A, CHR 0xB5, CHR 0xEB, CHR 0x8B,
     CHR 0x88, CHR 0xEB, CHR 0x8B, CHR 0xA4, CHR ''.'']"

text \<open>l.188, the default failure message ("an error occurred during the analysis.").\<close>

definition msg_failed_default :: string where
  "msg_failed_default =
    [CHR 0xEB, CHR 0xB6, CHR 0x84, CHR 0xEC, CHR 0x84, CHR 0x9D, CHR 0x20, CHR 0xEC, CHR 0xA4,
     CHR 0x91, CHR 0x20, CHR 0xEC, CHR 0x98, CHR 0xA4, CHR 0xEB, CHR 0xA5, CHR 0x98, CHR 0xEA,
     CHR 0xB0, CHR 0x80, CHR 0x20, CHR 0xEB, CHR 0xB0, CHR 0x9C, CHR 0xEC, CHR 0x83, CHR 0x9D,
     CHR 0xED, CHR 0x96, CHR 0x88, CHR 0xEC, CHR 0x8A, CHR 0xB5, CHR 0xEB, CHR 0x8B, CHR 0x88,
     CHR 0xEB, CHR 0x8B, CHR 0xA4, CHR ''.'']"

text \<open>l.200 ("the analysis timed out. Please try again.").\<close>

definition msg_timeout :: string where
  "msg_timeout =
    [CHR 0xEB, CHR 0xB6, CHR 0x84, CHR 0xEC, CHR 0x84, CHR 0x9D, CHR 0x20, CHR 0xEC, CHR 0x8B,
     CHR 0x9C, CHR 0xEA, CHR 0xB0, CHR 0x84, CHR 0xEC, CHR 0x9D, CHR 0xB4, CHR 0x20, CHR 0xEC,
     CHR 0xB4, CHR 0x88, CHR 0xEA, CHR 0xB3, CHR 0xBC, CHR 0xEB, CHR 0x90, CHR 0x98, CHR 0xEC,
     CHR 0x97, CHR 0x88, CHR 0xEC, CHR 0x8A, CHR 0xB5, CHR 0xEB, CHR 0x8B, CHR 0x88, CHR 0xEB,
     CHR 0x8B, CHR 0xA4, CHR ''.'', CHR 0x20, CHR 0xEB, CHR 0x8B, CHR 0xA4, CHR 0xEC, CHR 0x8B,
     CHR 0x9C, CHR 0x20, CHR 0xEC, CHR 0x8B, CHR 0x9C, CHR 0xEB, CHR 0x8F, CHR 0x84, CHR 0xED,
     CHR 0x95, CHR 0xB4, CHR 0xEC, CHR 0xA3, CHR 0xBC, CHR 0xEC, CHR 0x84, CHR 0xB8, CHR 0xEC,
     CHR 0x9A, CHR 0x94, CHR ''.'']"

text \<open>l.120 and others ("analysis complete").\<close>

definition txt_analysis_complete :: string where
  "txt_analysis_complete =
    [CHR 0xEB, CHR 0xB6, CHR 0x84, CHR 0xEC, CHR 0x84, CHR 0x9D, CHR 0x20, CHR 0xEC, CHR 0x99,
     CHR 0x84, CHR 0xEB, CHR 0xA3, CHR 0x8C]"

text \<open>l.121 ("normal stage").\<close>

definition txt_normal_stage :: string where
  "txt_normal_stage =
    [CHR 0xEC, CHR 0xA0, CHR 0x95, CHR 0xEC, CHR 0x83, CHR 0x81, CHR 0x20, CHR 0xEB, CHR 0x8B,
     CHR 0xA8, CHR 0xEA, CHR 0xB3, CHR 0x84]"

text \<open>l.125 ("stride time").\<close>

definition txt_stride_time :: string where
  "txt_stride_time =
    [CHR 0xEB, CHR 0xB3, CHR 0xB4, CHR 0xED, CHR 0x8F, CHR 0xAD, CHR 0x20, CHR 0xEC, CHR 0x8B,
     CHR 0x9C, CHR 0xEA, CHR 0xB0, CHR 0x84]"

text \<open>l.128.\<close>

definition txt_stride_time_desc :: string where
  "txt_stride_time_desc =
    [CHR 0xED, CHR 0x95, CHR 0x9C, CHR 0xEC, CHR 0xAA, CHR 0xBD, CHR 0x20, CHR 0xEB, CHR 0xB0,
     CHR 0x9C, CHR 0xEC, CHR 0x9D, CHR 0xB4, CHR 0x20, CHR 0xEB, CHR 0x95, CHR 0x85, CHR 0xEC,
     CHR 0x97, CHR 0x90, CHR 0x20, CHR 0xEB, CHR 0x8B, CHR 0xBF, CHR 0xEC, CHR 0x9D, CHR 0x80,
     CHR 0x20, CHR 0xED, CHR 0x9B, CHR 0x84, CHR '','', CHR 0x20, CHR 0xEA, CHR 0xB0, CHR 0x99,
     CHR 0xEC, CHR 0x9D, CHR 0x80, CHR 0x20, CHR 0xEB, CHR 0xB0, CHR 0x9C, CHR 0xEC, CHR 0x9D,
     CHR 0xB4, CHR 0x20, CHR 0xEB, CHR 0x8B, CHR 0xA4, CHR 0xEC, CHR 0x8B, CHR 0x9C, CHR 0x20,
     CHR 0xEB, CHR 0x8B, CHR 0xBF, CHR 0xEC, CHR 0x9D, CHR 0x84, CHR 0x20, CHR 0xEB, CHR 0x95,
     CHR 0x8C, CHR 0xEA, CHR 0xB9, CHR 0x8C, CHR 0xEC, CHR 0xA7, CHR 0x80, CHR 0x20, CHR 0xEA,
     CHR 0xB1, CHR 0xB8, CHR 0xEB, CHR 0xA6, CHR 0xAC, CHR 0xEB, CHR 0x8A, CHR 0x94, CHR 0x20,
     CHR 0xEC, CHR 0x8B, CHR 0x9C, CHR 0xEA, CHR 0xB0, CHR 0x84, CHR 0xEC, CHR 0x9E, CHR 0x85,
     CHR 0xEB, CHR 0x8B, CHR 0x88, CHR 0xEB, CHR 0x8B, CHR 0xA4, CHR ''.'']"

text \<open>l.133 ("double support ratio").\<close>

definition txt_double_support :: string where
  "txt_double_support =
    [CHR 0xEC, CHR 0x96, CHR 0x91, CHR 0xEB, CHR 0xB0, CHR 0x9C, CHR 0x20, CHR 0xEC, CHR 0xA7,
     CHR 0x80, CHR 0xEC, CHR 0xA7, CHR 0x80, CHR 0x20, CHR 0xEB, CHR 0xB9, CHR 0x84, CHR 0xEC,
     CHR 0x9C, CHR 0xA8]"

text \<open>l.136.\<close>

definition txt_double_support_desc :: string where
  "txt_double_support_desc =
    [CHR 0xEB, CHR 0x91, CHR 0x90, CHR 0x20, CHR 0xEB, CHR 0xB0, CHR 0x9C, CHR 0xEC, CHR 0x9D,
     CHR 0xB4, CHR 0x20, CHR 0xEB, CHR 0x8F, CHR 0x99, CHR 0xEC, CHR 0x8B, CHR 0x9C, CHR 0xEC,
     CHR 0x97, CHR 0x90, CHR 0x20, CHR 0xEB, CHR 0x95, CHR 0x85, CHR 0xEC, CHR 0x97, CHR 0x90,
     CHR 0x20, CHR 0xEB, CHR 0x8B, CHR 0xBF, CHR 0xEC, CHR 0x95, CHR 0x84, CHR 0x20, CHR 0xEC,
     CHR 0x9E, CHR 0x88, CHR 0xEB, CHR 0x8A, CHR 0x94, CHR 0x20, CHR 0xEC, CHR 0x8B, CHR 0x9C,
     CHR 0xEA, CHR 0xB0, CHR 0x84, CHR 0xEC, CHR 0x9D, CHR 0x98, CHR 0x20, CHR 0xEB, CHR 0xB9,
     CHR 0x84, CHR 0xEC, CHR 0x9C, CHR 0xA8, CHR 0xEC, CHR 0x9D, CHR 0xB4, CHR 0xEC, CHR 0x97,
     CHR 0x90, CHR 0xEC, CHR 0x9A, CHR 0x94, CHR ''.'']"

text \<open>l.141 ("stride difference").\<close>

definition txt_stride_difference :: string where
  "txt_stride_difference =
    [CHR 0xEC, CHR 0x96, CHR 0x91, CHR 0xEB, CHR 0xB0, CHR 0x9C, CHR 0x20, CHR 0xEB, CHR 0xB3,
     CHR 0xB4, CHR 0xED, CHR 0x8F, CHR 0xAD, CHR 0x20, CHR 0xEC, CHR 0xB0, CHR 0xA8, CHR 0xEC,
     CHR 0x9D, CHR 0xB4]"

text \<open>l.144.\<close>

definition txt_stride_difference_desc :: string where
  "txt_stride_difference_desc =
    [CHR 0xEC, CHR 0x99, CHR 0xBC, CHR 0xEB, CHR 0xB0, CHR 0x9C, CHR 0xEA, CHR 0xB3, CHR 0xBC,
     CHR 0x20, CHR 0xEC, CHR 0x98, CHR 0xA4, CHR 0xEB, CHR 0xA5, CHR 0xB8, CHR 0xEB, CHR 0xB0,
     CHR 0x9C, CHR 0xEC, CHR 0x9D, CHR 0x98, CHR 0x20, CHR 0xEA, CHR 0xB1, CHR 0xB8, CHR 0xEC,
     CHR 0x9D, CHR 0x8C, CHR 0x20, CHR 0xEA, CHR 0xB8, CHR 0xB8, CHR 0xEC, CHR 0x9D, CHR 0xB4,
     CHR 0x20, CHR 0xEC, CHR 0xB0, CHR 0xA8, CHR 0xEC, CHR 0x9D, CHR 0xB4, CHR 0xEC, CHR 0x9E,
     CHR 0x85, CHR 0xEB, CHR 0x8B, CHR 0x88, CHR 0xEB, CHR 0x8B, CHR 0xA4, CHR ''.'']"

text \<open>l.149 ("average walking speed").\<close>

definition txt_walking_speed :: string where
  "txt_walking_speed =
    [CHR 0xED, CHR 0x8F, CHR 0x89, CHR 0xEA, CHR 0xB7, CHR 0xA0, CHR 0x20, CHR 0xEB, CHR 0xB3,
     CHR 0xB4, CHR 0xED, CHR 0x96, CHR 0x89, CHR 0x20, CHR 0xEC, CHR 0x86, CHR 0x8D, CHR 0xEB,
     CHR 0x8F, CHR 0x84]"

text \<open>l.152.\<close>

definition txt_walking_speed_desc :: string where
  "txt_walking_speed_desc =
    [CHR 0xEB, CHR 0x8B, CHR 0xA8, CHR 0xEC, CHR 0x9C, CHR 0x84, CHR 0x20, CHR 0xEC, CHR 0x8B,
     CHR 0x9C, CHR 0xEA, CHR 0xB0, CHR 0x84, CHR 0x20, CHR 0xEB, CHR 0x8F, CHR 0x99, CHR 0xEC,
     CHR 0x95, CHR 0x88, CHR 0x20, CHR 0xEC, CHR 0x9D, CHR 0xB4, CHR 0xEB, CHR 0x8F, CHR 0x99,
     CHR 0xED, CHR 0x95, CHR 0x9C, CHR 0x20, CHR 0xEA, CHR 0xB1, CHR 0xB0, CHR 0xEB, CHR 0xA6,
     CHR 0xAC, CHR 0xEC, CHR 0x9E, CHR 0x85, CHR 0xEB, CHR 0x8B, CHR 0x88, CHR 0xEB, CHR 0x8B,
     CHR 0xA4, CHR ''.'']"

text \<open>l.159 ("Parkinson's disease").\<close>

definition txt_parkinson :: string where
  "txt_parkinson =
    [CHR 0xED, CHR 0x8C, CHR 0x8C, CHR 0xED, CHR 0x82, CHR 0xA8, CHR 0xEC, CHR 0x8A, CHR 0xA8,
     CHR 0xEB, CHR 0xB3, CHR 0x91]"

text \<open>l.161 and l.168 ("normal range").\<close>

definition txt_normal_range :: string where
  "txt_normal_range =
    [CHR 0xEC, CHR 0xA0, CHR 0x95, CHR 0xEC, CHR 0x83, CHR 0x81, CHR 0x20, CHR 0xEB, CHR 0xB2,
     CHR 0x94, CHR 0xEC, CHR 0x9C, CHR 0x84]"

text \<open>l.166 ("stroke").\<close>

definition txt_stroke :: string where
  "txt_stroke =
    [CHR 0xEB, CHR 0x87, CHR 0x8C, CHR 0xEC, CHR 0xA1, CHR 0xB8, CHR 0xEC, CHR 0xA4, CHR 0x91]"

text \<open>l.174 ("the gait analysis is complete; see the backend log for details.").\<close>

definition txt_report_content :: string where
  "txt_report_content =
    [CHR 0xEB, CHR 0xB3, CHR 0xB4, CHR 0xED, CHR 0x96, CHR 0x89, CHR 0x20, CHR 0xEB, CHR 0xB6,
     CHR 0x84, CHR 0xEC, CHR 0x84, CHR 0x9D, CHR 0xEC, CHR 0x9D, CHR 0xB4, CHR 0x20, CHR 0xEC,
     CHR 0x99, CHR 0x84, CHR 0xEB, CHR 0xA3, CHR 0x8C, CHR 0xEB, CHR 0x90, CHR 0x98, CHR 0xEC,
     CHR 0x97, CHR 0x88, CHR 0xEC, CHR 0x8A, CHR 0xB5, CHR 0xEB, CHR 0x8B, CHR 0x88, CHR 0xEB,
     CHR 0x8B, CHR 0xA4, CHR ''.'', CHR 0x20, CHR 0xEC, CHR 0x9E, CHR 0x90, CHR 0xEC, CHR 0x84,
     CHR 0xB8, CHR 0xED, CHR 0x95, CHR 0x9C, CHR 0x20, CHR 0xEA, CHR 0xB2, CHR 0xB0, CHR 0xEA,
     CHR 0xB3, CHR 0xBC, CHR 0xEB, CHR 0x8A, CHR 0x94, CHR 0x20, CHR 0xEB, CHR 0xB0, CHR 0xB1,
     CHR 0xEC, CHR 0x97, CHR 0x94, CHR 0xEB, CHR 0x93, CHR 0x9C, CHR 0x20, CHR 0xEB, CHR 0xA1,
     CHR 0x9C, CHR 0xEA, CHR 0xB7, CHR 0xB8, CHR 0xEB, CHR 0xA5, CHR 0xBC, CHR 0x20, CHR 0xED,
     CHR 0x99, CHR 0x95, CHR 0xEC, CHR 0x9D, CHR 0xB8, CHR 0xED, CHR 0x95, CHR 0xB4, CHR 0xEC,
     CHR 0xA3, CHR 0xBC, CHR 0xEC, CHR 0x84, CHR 0xB8, CHR 0xEC, CHR 0x9A, CHR 0x94, CHR ''.'']"

text \<open>The placeholder report of l.118-176.\<close>

definition fallback_indicator :: "string \<Rightarrow> string \<Rightarrow> string \<Rightarrow> json" where
  "fallback_indicator ident name description =
     JObj [(''id'', JStr ident), (''name'', JStr name), (''value'', JStr txt_analysis_complete),
           (''status'', JStr ''normal''), (''description'', JStr description),
           (''result'', JStr msg_done)]"

definition fallback_disease :: "string \<Rightarrow> string \<Rightarrow> rat \<Rightarrow> json" where
  "fallback_disease ident name probability =
     JObj [(''id'', JStr ident), (''name'', JStr name), (''probability'', JNum probability),
           (''status'', JStr txt_normal_range), (''trend'', JStr ''stable'')]"

definition fallback_gaitData :: json where
  "fallback_gaitData =
     JObj [(''score'', JNum 85),
           (''status'', JStr txt_analysis_complete),
           (''riskLevel'', JStr txt_normal_stage),
           (''indicators'', JArr
              [fallback_indicator ''stride-time'' txt_stride_time txt_stride_time_desc,
               fallback_indicator ''double-support'' txt_double_support txt_double_support_desc,
               fallback_indicator ''stride-difference'' txt_stride_difference
                 txt_stride_difference_desc,
               fallback_indicator ''walking-speed'' txt_walking_speed txt_walking_speed_desc]),
           (''diseases'', JArr
              [fallback_disease ''parkinson'' txt_parkinson (1 / 10),
               fallback_disease ''stroke'' txt_stroke (5 / 100)]),
           (''detailedReport'', JObj
              [(''title'', JStr txt_analysis_complete), (''content'', JStr txt_report_content)])]"

text \<open>\<^verbatim>\<open>clearInterval(checkResult)\<close> of the loop \<open>i\<close>.\<close>

definition clear_interval :: "nat \<Rightarrow> page \<Rightarrow> page" where
  "clear_interval i s =
     (if i < length (loops s)
      then s\<lparr>loops := (loops s)[i := (loops s ! i)\<lparr>interval_set := False\<rparr>]\<rparr>
      else s)"

text \<open>The outer \<^verbatim>\<open>catch\<close>, l.211-217.\<close>

definition request_failed :: "js_error \<Rightarrow> page \<Rightarrow> page" where
  "request_failed err s =
     s\<lparr>isAnalyzing := False, analysisProgress := JNum 0, analysisMessage := JStr [],
       page_alerts := page_alerts s @ [AlertRequestFailed err]\<rparr>"

text \<open>
  handleStartAnalysis up to the creation of the interval, l.23-65 and l.209-218. The
  outcome of \<^verbatim>\<open>await requestLangGraphAnalysis(...)\<close> is a parameter: \<open>Inl err\<close> when the
  call rejects, \<open>Inr r\<close> when it resolves to \<open>r\<close>. \<open>userInfo\<close> is the object read from the
  local storage. The function neither reads nor changes the loops that exist already.
\<close>

definition handleStartAnalysis :: "json \<Rightarrow> js_error + json option \<Rightarrow> page \<Rightarrow> page" where
  "handleStartAnalysis userInfo request s =
     (let s1 = s\<lparr>isAnalyzing := True, analysisProgress := JNum 10,
                 analysisMessage := JStr msg_sending\<rparr>
      in if \<not> truthy_opt (field userInfo ''name'') \<or> \<not> truthy_opt (field userInfo ''height'')
            \<or> \<not> truthy_opt (field userInfo ''gender'')
         then s1\<lparr>page_alerts := page_alerts s1 @ [AlertNoUserInfo], isAnalyzing := False\<rparr>
         else
           (case request of
              Inl err \<Rightarrow> request_failed err s1
            | Inr diagnosisRequest \<Rightarrow>
                (case opt_field (opt_field diagnosisRequest ''data'') ''diagnosisId'' of
                   None \<Rightarrow> request_failed (Error (JStr msg_request_failed)) s1
                 | Some ident \<Rightarrow>
                     if \<not> truthy ident then request_failed (Error (JStr msg_request_failed)) s1
                     else
                       s1\<lparr>analysisProgress := JNum 20, analysisMessage := JStr msg_langgraph,
                          loops := loops s1 @
                            [\<lparr>diagnosisId = ident, attempts = 0, interval_set = True,
                              in_flight = 0\<rparr>]\<rparr>)))"

text \<open>
  The interval callback of the loop \<open>i\<close> up to its \<^verbatim>\<open>await\<close>, l.66-68: it counts the
  attempt and sends the status query. A cleared interval fires no more.
\<close>

definition fire :: "nat \<Rightarrow> page \<Rightarrow> page" where
  "fire i s =
     (if i < length (loops s) \<and> interval_set (loops s ! i)
      then s\<lparr>loops := (loops s)[i := (loops s ! i)\<lparr>attempts := Suc (attempts (loops s ! i)),
                                                  in_flight := Suc (in_flight (loops s ! i))\<rparr>]\<rparr>
      else s)"

text \<open>
  The \<^verbatim>\<open>completed\<close> case, l.81-186, after the interval has been cleared: the new state
  and the error thrown, if any.
\<close>

definition on_completed :: "json \<Rightarrow> page \<Rightarrow> page \<times> js_error option" where
  "on_completed status s =
     (let s1 = s\<lparr>analysisProgress := JNum 100, analysisMessage := JStr msg_done\<rparr> in
      case field status ''result'' of
        None \<Rightarrow> (s1, Some (Error (JStr msg_no_result)))
      | Some result \<Rightarrow>
          if \<not> truthy result then (s1, Some (Error (JStr msg_no_result)))
          else if in_operator_throws result then (s1, Some TypeError)
          else
            (let finalResult =
                   (if truthy_opt (field result ''success'') \<and> truthy_opt (field result ''data'')
                    then (case field result ''data'' of Some d \<Rightarrow> d | None \<Rightarrow> result)
                    else result);
                 s2 = (if truthy finalResult \<and> is_object finalResult
                       then s1\<lparr>gaitData := Some finalResult\<rparr>
                       else s1\<lparr>console_warnings := console_warnings s1 @ [finalResult],
                               gaitData := Some fallback_gaitData\<rparr>)
             in (s2\<lparr>completion_timers := Suc (completion_timers s2)\<rparr>, None)))"

text \<open>
  The body of the \<^verbatim>\<open>try\<close> after the \<^verbatim>\<open>await\<close>, l.69-201, for the loop \<open>i\<close>: the new
  state and the error thrown, if any. The state updates made before a \<^verbatim>\<open>throw\<close> stay.
\<close>

definition after_await :: "nat \<Rightarrow> json option \<Rightarrow> page \<Rightarrow> page \<times> js_error option" where
  "after_await i statusResponse s =
     (let deadline = (\<lambda>s'. if maxAttempts \<le> attempts (loops s' ! i)
                            then (clear_interval i s', Some (Error (JStr msg_timeout)))
                            else (s', None))
      in case opt_field statusResponse ''data'' of
           None \<Rightarrow> deadline s
         | Some status \<Rightarrow>
             if \<not> truthy status then deadline s
             else
               (let progress = js_or (field status ''progress'') (JNum 0);
                    message = js_or (field status ''message'') (JStr msg_analyzing);
                    s1 = s\<lparr>analysisProgress := progress, analysisMessage := message\<rparr>
                in if field status ''status'' = Some (JStr ''completed'')
                   then on_completed status (clear_interval i s1)
                   else if field status ''status'' = Some (JStr ''failed'')
                   then (s1, Some (Error (js_or (field status ''error'') (JStr msg_failed_default))))
                   else deadline s1))"

text \<open>The \<^verbatim>\<open>catch\<close> of the interval callback, l.203-208.\<close>

definition polling_failed :: "nat \<Rightarrow> js_error \<Rightarrow> page \<Rightarrow> page" where
  "polling_failed i err s =
     (clear_interval i s)\<lparr>isAnalyzing := False,
                           page_alerts := page_alerts s @ [AlertPollingError err]\<rparr>"

text \<open>
  The continuation of a waiting tick of the loop \<open>i\<close>, when its status query has rejected
  (\<open>Inl err\<close>) or resolved (\<open>Inr r\<close>). It runs whether or not the interval has been cleared
  in the meantime. With no tick waiting, nothing happens.
\<close>

definition resume :: "nat \<Rightarrow> js_error + json option \<Rightarrow> page \<Rightarrow> page" where
  "resume i outcome s =
     (if i < length (loops s) \<and> 0 < in_flight (loops s ! i) then
        (let s0 = s\<lparr>loops := (loops s)[i := (loops s ! i)\<lparr>in_flight :=
                                                  in_flight (loops s ! i) - 1\<rparr>]\<rparr>
         in case outcome of
              Inl err \<Rightarrow> polling_failed i err s0
            | Inr statusResponse \<Rightarrow>
                (case after_await i statusResponse s0 of
                   (s1, None) \<Rightarrow> s1
                 | (s1, Some err) \<Rightarrow> polling_failed i err s1))
      else s)"

text \<open>A tick whose query is answered before anything else happens.\<close>

definition tick :: "nat \<Rightarrow> js_error + json option \<Rightarrow> page \<Rightarrow> page" where
  "tick i outcome s = resume i outcome (fire i s)"

fun ticks :: "nat \<Rightarrow> (js_error + json option) list \<Rightarrow> page \<Rightarrow> page" where
  "ticks i [] s = s"
| "ticks i (outcome # outcomes) s = ticks i outcomes (tick i outcome s)"

text \<open>The callback of l.179-182, one second after a completed analysis.\<close>

definition completion_fire :: "json \<Rightarrow> page \<Rightarrow> page" where
  "completion_fire userInfo s =
     (if 0 < completion_timers s
      then s\<lparr>completion_timers := completion_timers s - 1, isAnalyzing := False,
             page_alerts := page_alerts s @ [AlertAnalysisDone (field userInfo ''name'')]\<rparr>
      else s)"

subsection \<open>The page as the user drives it\<close>

text \<open>
  The start button (l.391-393) calls handleStartAnalysis and is disabled while
  \<^verbatim>\<open>isAnalyzing\<close> holds. In \<open>page_step\<close> every status query is answered before the
  next tick of the interval (\<open>tick\<close>); the functions \<open>fire\<close> and \<open>resume\<close> above
  describe the general case.
\<close>

datatype page_event =
    ClickStart "js_error + json option"
  | IntervalTick nat "js_error + json option"
  | CompletionTimer

text \<open>The initial values of the state cells, l.11-16.\<close>

definition page0 :: page where
  "page0 =
     \<lparr>gaitData = None, isAnalyzing = False, analysisProgress = JNum 0,
      analysisMessage = JStr [], loops = [], completion_timers = 0, page_alerts = [],
      console_warnings = []\<rparr>"

fun page_step :: "json \<Rightarrow> page_event \<Rightarrow> page \<Rightarrow> page" where
  "page_step userInfo (ClickStart request) s =
     (if isAnalyzing s then s else handleStartAnalysis userInfo request s)"
| "page_step userInfo (IntervalTick i outcome) s = tick i outcome s"
| "page_step userInfo CompletionTimer s = completion_fire userInfo s"

inductive page_reachable :: "json \<Rightarrow> page \<Rightarrow> bool" for userInfo :: json where
  page_reachable_init: "page_reachable userInfo page0"
| page_reachable_step:
    "page_reachable userInfo s \<Longrightarrow> page_reachable userInfo (page_step userInfo ev s)"

subsection \<open>Predicates and concrete inputs used in the properties of the polling\<close>

text \<open>
  An answer that is neither a rejection nor a terminal status: no \<^verbatim>\<open>data\<close>, or a status
  other than \<^verbatim>\<open>completed\<close> and \<^verbatim>\<open>failed\<close>.
\<close>

definition non_terminal :: "js_error + json option \<Rightarrow> bool" where
  "non_terminal outcome =
     (case outcome of
        Inl err \<Rightarrow> False
      | Inr statusResponse \<Rightarrow>
          (case opt_field statusResponse ''data'' of
             None \<Rightarrow> True
           | Some status \<Rightarrow>
               \<not> truthy status
               \<or> (field status ''status'' \<noteq> Some (JStr ''completed'')
                  \<and> field status ''status'' \<noteq> Some (JStr ''failed''))))"

text \<open>The update of progress and message by an answer, l.71-77.\<close>

definition display :: "js_error + json option \<Rightarrow> page \<Rightarrow> page" where
  "display outcome s =
     (case outcome of
        Inl err \<Rightarrow> s
      | Inr statusResponse \<Rightarrow>
          (case opt_field statusResponse ''data'' of
             None \<Rightarrow> s
           | Some status \<Rightarrow>
               if truthy status
               then s\<lparr>analysisProgress := js_or (field status ''progress'') (JNum 0),
                      analysisMessage := js_or (field status ''message'') (JStr msg_analyzing)\<rparr>
               else s))"

text \<open>
  The invariant of the page as the user drives it: no tick waits for its answer, at most
  one interval is set, and an interval is set only while \<^verbatim>\<open>isAnalyzing\<close> holds and no
  completion timer is pending.
\<close>

definition page_inv :: "page \<Rightarrow> bool" where
  "page_inv s =
     (list_all (\<lambda>l. in_flight l = 0) (loops s)
      \<and> (\<forall>i < length (loops s). \<forall>j < length (loops s).
            interval_set (loops s ! i) \<longrightarrow> interval_set (loops s ! j) \<longrightarrow> i = j)
      \<and> (list_ex interval_set (loops s) \<longrightarrow> isAnalyzing s \<and> completion_timers s = 0)
      \<and> (0 < completion_timers s \<longrightarrow> isAnalyzing s)
      \<and> completion_timers s \<le> 1)"

text \<open>A user, the answers of the backend, and the page while the first job is polled.\<close>

definition user_kim :: json where
  "user_kim = JObj [(''name'', JStr ''Kim''), (''height'', JNum 170), (''gender'', JStr ''male'')]"

definition accepted :: "string \<Rightarrow> js_error + json option" where
  "accepted ident =
     Inr (Some (JObj [(''success'', JBool True),
                      (''data'', JObj [(''diagnosisId'', JStr ident),
                                       (''status'', JStr ''processing'')])]))"

definition status_response :: "json \<Rightarrow> js_error + json option" where
  "status_response status = Inr (Some (JObj [(''success'', JBool True), (''data'', status)]))"

definition processing :: "rat \<Rightarrow> json" where
  "processing p =
     JObj [(''status'', JStr ''processing''), (''progress'', JNum p),
           (''message'', JStr ''working'')]"

definition failed_with_timeout_text :: json where
  "failed_with_timeout_text =
     JObj [(''status'', JStr ''failed''), (''progress'', JNum 50),
           (''message'', JStr ''working''), (''error'', JStr msg_timeout)]"

definition completed_with :: "json \<Rightarrow> json" where
  "completed_with result =
     JObj [(''status'', JStr ''completed''), (''progress'', JNum 100),
           (''message'', JStr ''done''), (''result'', result)]"

definition malformed_result :: json where
  "malformed_result = JObj [(''success'', JBool True), (''data'', JStr ''oops'')]"

definition network_error :: "js_error + json option" where
  "network_error = Inl (Error (JStr ''Network Error''))"

definition polling_A :: page where
  "polling_A =
     \<lparr>gaitData = None, isAnalyzing = True, analysisProgress = JNum 20,
      analysisMessage = JStr msg_langgraph,
      loops = [\<lparr>diagnosisId = JStr ''job-A'', attempts = 0, interval_set = True,
                in_flight = 0\<rparr>],
      completion_timers = 0, page_alerts = [], console_warnings = []\<rparr>"

text \<open>
  A run in which a new job is started while an answer for the first job is still awaited:
  two ticks of the first job wait for their answers; one query fails, which stops the first
  loop and enables the start button; the user starts a second job, whose first tick reports
  40 percent.
\<close>

definition job_A_failed :: page where
  "job_A_failed = resume 0 network_error (fire 0 (fire 0 polling_A))"

definition job_B_polling :: page where
  "job_B_polling =
     tick 1 (status_response (processing 40))
       (page_step user_kim (ClickStart (accepted ''job-B'')) job_A_failed)"

section \<open>Properties of the fall-alert hook\<close>

subsection \<open>What the effect, its cleanup and the commit leave unchanged\<close>

lemma effect_fields [simp]:
  "reconnectAttempts (effect e s) = reconnectAttempts s"
  "timers (effect e s) = timers s"
  "isSubscriptionActive (effect e s) = isSubscriptionActive s"
  "isFallDetected (effect e s) = isFallDetected s"
  "isReconnectingRef (effect e s) = isReconnectingRef s"
  "reconnectTimeoutRef (effect e s) = reconnectTimeoutRef s"
  "navigations (effect e s) = navigations s"
  "phone_alerts (effect e s) = phone_alerts s"
  by (simp_all add: effect_def remove_channel_def Let_def split: option.splits)

lemma cleanup_fields [simp]:
  "reconnectAttempts (cleanup s) = reconnectAttempts s"
  "isSubscriptionActive (cleanup s) = isSubscriptionActive s"
  "isFallDetected (cleanup s) = isFallDetected s"
  "channels (cleanup s) = channels s"
  "isReconnectingRef (cleanup s) = False"
  "next_id (cleanup s) = next_id s"
  "channelRef (cleanup s) = None"
  "navigations (cleanup s) = navigations s"
  "phone_alerts (cleanup s) = phone_alerts s"
  by (simp_all add: cleanup_def remove_channel_def clear_reconnect_timer_def clear_timeout_def
      split: option.splits)


lemma commit_fields [simp]:
  "isFallDetected (commit e old s) = isFallDetected s"
  "navigations (commit e old s) = navigations s"
  "phone_alerts (commit e old s) = phone_alerts s"
  "reconnectAttempts (commit e old s) = reconnectAttempts s"
  "isSubscriptionActive (commit e old s) = isSubscriptionActive s"
  by (simp_all add: commit_def)

lemma clear_timeout_fields [simp]:
  "isFallDetected (clear_timeout i s) = isFallDetected s"
  "isReconnectingRef (clear_timeout i s) = isReconnectingRef s"
  "channels (clear_timeout i s) = channels s"
  "reconnectAttempts (clear_timeout i s) = reconnectAttempts s"
  "isSubscriptionActive (clear_timeout i s) = isSubscriptionActive s"
  "next_id (clear_timeout i s) = next_id s"
  by (simp_all add: clear_timeout_def)

lemma list_all_filter: "list_all P xs \<Longrightarrow> list_all P (filter Q xs)"
  by (induction xs) auto


lemma reachable_run: "reachable e s \<Longrightarrow> reachable e (run e evs s)"
  by (induction evs arbitrary: s) (auto intro: reachable_step)

subsection \<open>The run in which every subscription fails\<close>

lemmas hook_defs =
  step_def commit_def effect_def cleanup_def on_subscribe_def on_insert_def
  handleAlertCancel_def handleEmergencyCall_def set_timeout_def clear_timeout_def
  clear_reconnect_timer_def remove_channel_def reconnect_delay_def maxReconnectAttempts_def
  Let_def


lemma good_env_ok: "env_ok good_env"
  by (simp add: env_ok_def env_missing_def key_is_service_role_def good_env_def)

lemma effect_env_ok:
  assumes "env_ok e"
  shows "effect e s =
     (if \<not> isSubscriptionActive s then
        s\<lparr>connectionStatus := SubscriptionDisabled, has_cleanup := False\<rparr>
      else if isReconnectingRef s then s\<lparr>has_cleanup := False\<rparr>
      else (remove_channel s)
             \<lparr>connectionStatus := Connecting,
              channels := channels s @
                [\<lparr>channel_id = next_id s, cap_active = True,
                  cap_attempts = reconnectAttempts s\<rparr>],
              channelRef := Some (next_id s),
              next_id := Suc (next_id s),
              has_cleanup := True\<rparr>)"
  using assms
  by (auto simp: env_ok_def env_missing_def key_is_service_role_def effect_def remove_channel_def
      Let_def split: option.splits)


lemma mount_env_ok: "env_ok e \<Longrightarrow> mount e = after_mount"
  by (simp add: mount_def hook0_def after_mount_def effect_env_ok remove_channel_def)











subsection \<open>The backoff rule\<close>

text \<open>
  C7. The reconnect delay of the backoff rule, \<^verbatim>\<open>Math.min(5000 * nextAttempt, 30000)\<close>,
  is monotonically non-decreasing in the attempt number and never exceeds 30000 ms; this
  holds for every attempt number, in particular for those from 0 to maxReconnectAttempts.
\<close>

theorem reconnect_delay_mono_bounded:
  "a \<le> b \<Longrightarrow> reconnect_delay a \<le> reconnect_delay b \<and> reconnect_delay b \<le> 30000"
  by (simp add: reconnect_delay_def min_def)

theorem reconnect_delay_mono_bounded_witness:
  "(2::nat) \<le> 3 \<and> reconnect_delay 2 = 10000 \<and> reconnect_delay 3 = 15000
     \<and> reconnect_delay 2 \<le> reconnect_delay 3 \<and> reconnect_delay 3 \<le> 30000"
  using reconnect_delay_mono_bounded [of 2 3] by (simp add: reconnect_delay_def)

subsection \<open>The reconnect counter is bounded\<close>













subsection \<open>No channel without valid settings\<close>

lemma rejected_inv_mount: "\<not> env_ok e \<Longrightarrow> rejected_inv e (mount e)"
  by (auto simp: env_ok_def env_missing_def key_is_service_role_def rejected_inv_def mount_def
      effect_def hook0_def split: option.splits)

lemma find_all_reactivate:
  "list_all (\<lambda>t. timer_action t = Reactivate) ts \<Longrightarrow> find P ts = Some t
     \<Longrightarrow> timer_action t = Reactivate"
  by (induction ts) (auto split: if_splits)

lemma rejected_inv_handle:
  assumes "rejected_inv e s"
  shows "rejected_inv e (handle ev s)"
proof (cases ev)
  case (SubscribeStatus c st err)
  with assms show ?thesis by (simp add: rejected_inv_def)
next
  case (InsertEvent c)
  with assms show ?thesis by (simp add: rejected_inv_def)
next
  case (TimerFire i)
  show ?thesis
  proof (cases "find (\<lambda>t. timer_id t = i) (timers s)")
    case None
    with TimerFire assms show ?thesis by simp
  next
    case (Some t)
    with assms have "timer_action t = Reactivate"
      by (auto simp: rejected_inv_def dest: find_all_reactivate)
    with TimerFire Some assms show ?thesis
      by (simp add: rejected_inv_def clear_timeout_def list_all_filter)
  qed
next
  case AlertCancel
  with assms show ?thesis
    by (simp add: rejected_inv_def handleAlertCancel_def set_timeout_def)
next
  case (EmergencyCall p)
  with assms show ?thesis
    by (simp add: rejected_inv_def handleEmergencyCall_def set_timeout_def Let_def)
qed

lemma rejected_inv_step:
  assumes "rejected_inv e s"
  shows "rejected_inv e (step e ev s)"
proof -
  have h: "rejected_inv e (handle ev s)" using assms by (rule rejected_inv_handle)
  with assms have "commit e s (handle ev s) = handle ev s"
    by (simp add: commit_def rejected_inv_def)
  with h show ?thesis by (simp add: step_def)
qed

lemma rejected_inv_reachable: "reachable e s \<Longrightarrow> \<not> env_ok e \<Longrightarrow> rejected_inv e s"
  by (induction rule: reachable.induct) (simp_all add: rejected_inv_mount rejected_inv_step)

text \<open>
  C10. If the Supabase URL or the anon key is missing (absent or empty), or the key contains
  \<^verbatim>\<open>service_role\<close>, then in every reachable state of the hook no channel has been opened
  and the connection status is the error one: "environment variable error" when a setting
  is missing, "security error" otherwise.
\<close>

theorem no_channel_when_env_rejected:
  assumes "env_missing e \<or> key_is_service_role e" and "reachable e s"
  shows "channels s = [] \<and> channelRef s = None
       \<and> connectionStatus s = (if env_missing e then EnvError else SecurityError)"
  using assms rejected_inv_reachable [of e s] by (auto simp: env_ok_def rejected_inv_def)

theorem no_channel_when_env_rejected_witness:
  "(env_missing service_role_env \<or> key_is_service_role service_role_env)
   \<and> reachable service_role_env
       (run service_role_env [AlertCancel, TimerFire 1] (mount service_role_env))
   \<and> channels (run service_role_env [AlertCancel, TimerFire 1] (mount service_role_env)) = []
   \<and> channelRef (run service_role_env [AlertCancel, TimerFire 1] (mount service_role_env))
       = None
   \<and> connectionStatus
       (run service_role_env [AlertCancel, TimerFire 1] (mount service_role_env))
       = SecurityError"
proof -
  have k: "key_is_service_role service_role_env"
    by (simp add: key_is_service_role_def service_role_env_def)
  have m: "\<not> env_missing service_role_env"
    by (simp add: env_missing_def service_role_env_def)
  have r: "reachable service_role_env
       (run service_role_env [AlertCancel, TimerFire 1] (mount service_role_env))"
    by (rule reachable_run) (rule reachable_mount)
  from k have "env_missing service_role_env \<or> key_is_service_role service_role_env" ..
  from no_channel_when_env_rejected [OF this r] k m r show ?thesis by simp
qed

subsection \<open>Acknowledging an alert\<close>
















text \<open>
  The reopening below needs the timer of the handler to fire before any other callback:
  when the removed channel reports CLOSED between the cancel and the timer, its callback
  sets the reconnecting flag (l.164-176), the effect that the timer re-runs returns at
  l.35-38, and no channel is opened.
\<close>

lemma closed_callback_before_timer:
  "isSubscriptionActive
     (run good_env [AlertCancel, SubscribeStatus 1 CLOSED None, TimerFire 2] alert_showing)
   \<and> isReconnectingRef
       (run good_env [AlertCancel, SubscribeStatus 1 CLOSED None, TimerFire 2] alert_showing)
   \<and> channels
       (run good_env [AlertCancel, SubscribeStatus 1 CLOSED None, TimerFire 2] alert_showing)
       = channels alert_showing"
  by (simp add: alert_showing_def good_env_def hook_defs)




section \<open>Properties of the alert modal\<close>

lemma handleEmergencyCall_calls:
  "\<not> isFallDetected (handleEmergencyCall p h)"
  "emergency_calls (handleEmergencyCall p h) = Suc (emergency_calls h)"
  "p \<noteq> [] \<Longrightarrow> navigations (handleEmergencyCall p h) = navigations h @ [''tel:'' @ p]"
  by (simp_all add: handleEmergencyCall_def set_timeout_def Let_def emergency_calls_def)

lemma handleAlertCancel_calls:
  "\<not> isFallDetected (handleAlertCancel h)"
  "emergency_calls (handleAlertCancel h) = emergency_calls h"
  by (simp_all add: handleAlertCancel_def set_timeout_def emergency_calls_def)

lemma emergency_calls_commit [simp]: "emergency_calls (commit e old s) = emergency_calls s"
  by (simp add: emergency_calls_def)

lemma step_emergency_call:
  "\<not> isFallDetected (step e (EmergencyCall p) h)"
  "emergency_calls (step e (EmergencyCall p) h) = Suc (emergency_calls h)"
  "p \<noteq> [] \<Longrightarrow> navigations (step e (EmergencyCall p) h) = navigations h @ [''tel:'' @ p]"
  by (simp_all add: step_def handleEmergencyCall_calls)

lemma step_alert_cancel:
  "\<not> isFallDetected (step e AlertCancel h)"
  "emergency_calls (step e AlertCancel h) = emergency_calls h"
  by (simp_all add: step_def handleAlertCancel_calls)

lemma step_insert:
  assumes "find (\<lambda>ch. channel_id ch = c) (channels h) = Some ch"
  shows "isFallDetected (step e (InsertEvent c) h)"
    and "emergency_calls (step e (InsertEvent c) h) = emergency_calls h"
    and "navigations (step e (InsertEvent c) h) = navigations h"
  using assms by (simp_all add: step_def on_insert_def emergency_calls_def)

lemma app_run_append: "app_run e p (xs @ ys) s = app_run e p ys (app_run e p xs s)"
  by (induction xs arbitrary: s) simp_all

lemma tick_hidden:
  "\<not> countdown_interval (alert_state s) \<Longrightarrow> app_step e p CountdownTick s = s"
  by (simp add: app_step_def)

lemma ticks_hidden:
  "\<not> countdown_interval (alert_state s) \<Longrightarrow> app_run e p (replicate n CountdownTick) s = s"
  by (induction n) (simp_all add: tick_hidden)

lemma tick_counting:
  assumes "countdown_interval (alert_state s)" and "1 < countdown (alert_state s)"
  shows "app_step e p CountdownTick s =
           s\<lparr>alert_state := (alert_state s)\<lparr>countdown := countdown (alert_state s) - 1\<rparr>\<rparr>"
  using assms by (simp add: app_step_def)

lemma tick_zero:
  assumes "countdown_interval (alert_state s)" and "countdown (alert_state s) \<le> 1"
    and "isFallDetected (hook_state s)"
  shows "app_step e p CountdownTick s = hidden (step e (EmergencyCall p) (hook_state s))"
  using assms by (simp add: app_step_def step_emergency_call alert_effect_def hidden_def)

lemma ticks_counting:
  assumes "countdown_interval (alert_state s)" and "int n < countdown (alert_state s)"
  shows "app_run e p (replicate n CountdownTick) s =
           s\<lparr>alert_state := (alert_state s)\<lparr>countdown := countdown (alert_state s) - int n\<rparr>\<rparr>"
  using assms
proof (induction n arbitrary: s)
  case 0
  then show ?case by simp
next
  case (Suc n)
  let ?s = "s\<lparr>alert_state := (alert_state s)\<lparr>countdown := countdown (alert_state s) - 1\<rparr>\<rparr>"
  from Suc.prems have st: "app_step e p CountdownTick s = ?s" by (simp add: tick_counting)
  from Suc.prems have "app_run e p (replicate n CountdownTick) ?s =
     ?s\<lparr>alert_state := (alert_state ?s)\<lparr>countdown := countdown (alert_state ?s) - int n\<rparr>\<rparr>"
    by (intro Suc.IH) simp_all
  with st show ?case by simp
qed

lemma shown_ticks_before:
  assumes "n < 10"
  shows "app_run e p (replicate n CountdownTick) (shown h) =
           \<lparr>hook_state = h,
            alert_state = \<lparr>countdown = 10 - int n, isCallInProgress = False,
                           countdown_interval = True\<rparr>\<rparr>"
  using assms ticks_counting [of "shown h" n e p] by (simp add: shown_def)

lemma shown_ticks_ten:
  assumes "isFallDetected h"
  shows "app_run e p (replicate 10 CountdownTick) (shown h) = hidden (step e (EmergencyCall p) h)"
proof -
  have "replicate 10 CountdownTick = replicate 9 CountdownTick @ [CountdownTick]"
    by (simp add: numeral_eq_Suc)
  then have "app_run e p (replicate 10 CountdownTick) (shown h) =
      app_step e p CountdownTick (app_run e p (replicate 9 CountdownTick) (shown h))"
    by (simp add: app_run_append)
  also have "\<dots> = hidden (step e (EmergencyCall p) h)"
    using assms by (simp add: shown_ticks_before tick_zero)
  finally show ?thesis .
qed

lemma shown_ticks_after:
  assumes "isFallDetected h" and "10 \<le> n"
  shows "app_run e p (replicate n CountdownTick) (shown h) = hidden (step e (EmergencyCall p) h)"
proof -
  from assms(2) have "replicate n CountdownTick =
      replicate 10 CountdownTick @ replicate (n - 10) CountdownTick"
    by (simp add: replicate_add [symmetric])
  then show ?thesis
    using assms(1) by (simp add: app_run_append shown_ticks_ten ticks_hidden hidden_def)
qed

lemma shown_cancel:
  assumes "isFallDetected h" and "n < 10"
  shows "app_run e p (replicate n CountdownTick @ [ClickCancel] @ replicate m CountdownTick)
           (shown h) = hidden (step e AlertCancel h)"
  using assms
  by (simp add: app_run_append shown_ticks_before app_step_def step_alert_cancel alert_effect_def
      ticks_hidden hidden_def)

lemma alert_inv_hook_change:
  assumes "alert_inv s"
  shows "alert_inv (let s1 = s\<lparr>hook_state := h\<rparr> in
            if isFallDetected (hook_state s1) \<noteq> isFallDetected (hook_state s)
            then s1\<lparr>alert_state := alert_effect (isFallDetected (hook_state s1)) (alert_state s1)\<rparr>
            else s1)"
  using assms by (auto simp: alert_inv_def alert_effect_def Let_def)

lemma alert_inv_step:
  assumes "alert_inv s"
  shows "alert_inv (app_step e p ev s)"
proof (cases ev)
  case (HookEvent hev)
  with alert_inv_hook_change [OF assms, of "step e hev (hook_state s)"] show ?thesis
    by (simp add: app_step_def Let_def)
next
  case CountdownTick
  with assms show ?thesis
    by (auto simp: app_step_def alert_inv_def alert_effect_def Let_def step_emergency_call)
next
  case ClickCancel
  with assms show ?thesis
    by (auto simp: app_step_def alert_inv_def alert_effect_def Let_def step_alert_cancel)
next
  case ClickEmergency
  with assms show ?thesis
    by (auto simp: app_step_def alert_inv_def alert_effect_def Let_def step_emergency_call)
qed

lemma alert_inv_reachable: "app_reachable e p s \<Longrightarrow> alert_inv s"
proof (induction rule: app_reachable.induct)
  case app_reachable_mount
  show ?case by (simp add: app_mount_def alert_inv_def alert_effect_def mount_def hook0_def)
next
  case (app_reachable_step s ev)
  then show ?case by (simp add: alert_inv_step)
qed

lemma insert_shows_alert:
  assumes "alert_inv s" and "\<not> isFallDetected (hook_state s)"
    and "find (\<lambda>ch. channel_id ch = c) (channels (hook_state s)) = Some ch"
  shows "app_step e p (HookEvent (InsertEvent c)) s = shown (step e (InsertEvent c) (hook_state s))"
  using assms step_insert(1) [OF assms(3), of e]
  by (simp add: app_step_def alert_inv_def alert_effect_def Let_def shown_def)

text \<open>
  C9. In every reachable state of the application in which no alert shows, an INSERT
  event on a channel makes the alert visible with the countdown at 10 and its interval
  set. After n < 10 ticks of the interval the countdown is 10 - n and handleEmergencyCall
  has not run; the tenth tick (the one at which the countdown reaches zero) runs it once
  with the guardian's phone number, which hides the alert and clears the interval, so that
  later ticks change nothing. When the user presses the cancel button after n < 10 ticks,
  the alert is hidden and the interval cleared: however many ticks follow,
  handleEmergencyCall does not run.
\<close>

theorem countdown_triggers_call:
  assumes "app_reachable e p s" and "\<not> isFallDetected (hook_state s)"
    and "find (\<lambda>ch. channel_id ch = c) (channels (hook_state s)) = Some ch"
  shows "isFallDetected (hook_state (app_step e p (HookEvent (InsertEvent c)) s))
       \<and> countdown (alert_state (app_step e p (HookEvent (InsertEvent c)) s)) = 10
       \<and> countdown_interval (alert_state (app_step e p (HookEvent (InsertEvent c)) s))
       \<and> (n < 10 \<longrightarrow>
            countdown (alert_state (app_run e p (replicate n CountdownTick)
              (app_step e p (HookEvent (InsertEvent c)) s))) = 10 - int n
            \<and> isFallDetected (hook_state (app_run e p (replicate n CountdownTick)
                (app_step e p (HookEvent (InsertEvent c)) s)))
            \<and> emergency_calls (hook_state (app_run e p (replicate n CountdownTick)
                (app_step e p (HookEvent (InsertEvent c)) s))) = emergency_calls (hook_state s)
            \<and> \<not> countdown_interval (alert_state (app_run e p
                (replicate n CountdownTick @ [ClickCancel] @ replicate m CountdownTick)
                (app_step e p (HookEvent (InsertEvent c)) s)))
            \<and> \<not> isFallDetected (hook_state (app_run e p
                (replicate n CountdownTick @ [ClickCancel] @ replicate m CountdownTick)
                (app_step e p (HookEvent (InsertEvent c)) s)))
            \<and> emergency_calls (hook_state (app_run e p
                (replicate n CountdownTick @ [ClickCancel] @ replicate m CountdownTick)
                (app_step e p (HookEvent (InsertEvent c)) s))) = emergency_calls (hook_state s))
       \<and> (10 \<le> n \<longrightarrow>
            hook_state (app_run e p (replicate n CountdownTick)
                (app_step e p (HookEvent (InsertEvent c)) s))
              = step e (EmergencyCall p) (step e (InsertEvent c) (hook_state s))
            \<and> emergency_calls (hook_state (app_run e p (replicate n CountdownTick)
                (app_step e p (HookEvent (InsertEvent c)) s)))
              = Suc (emergency_calls (hook_state s))
            \<and> \<not> isFallDetected (hook_state (app_run e p (replicate n CountdownTick)
                (app_step e p (HookEvent (InsertEvent c)) s)))
            \<and> \<not> countdown_interval (alert_state (app_run e p (replicate n CountdownTick)
                (app_step e p (HookEvent (InsertEvent c)) s))))"
proof -
  let ?h = "step e (InsertEvent c) (hook_state s)"
  from assms(1) have inv: "alert_inv s" by (rule alert_inv_reachable)
  have sh: "app_step e p (HookEvent (InsertEvent c)) s = shown ?h"
    using inv assms(2,3) by (rule insert_shows_alert)
  note ins = step_insert [OF assms(3), of e]
  have 1: "isFallDetected (hook_state (shown ?h)) \<and> countdown (alert_state (shown ?h)) = 10
       \<and> countdown_interval (alert_state (shown ?h))"
    using ins(1) by (simp add: shown_def)
  have 2: "countdown (alert_state (app_run e p (replicate n CountdownTick) (shown ?h)))
              = 10 - int n
         \<and> isFallDetected (hook_state (app_run e p (replicate n CountdownTick) (shown ?h)))
         \<and> emergency_calls (hook_state (app_run e p (replicate n CountdownTick) (shown ?h)))
              = emergency_calls (hook_state s)
         \<and> \<not> countdown_interval (alert_state (app_run e p
              (replicate n CountdownTick @ [ClickCancel] @ replicate m CountdownTick) (shown ?h)))
         \<and> \<not> isFallDetected (hook_state (app_run e p
              (replicate n CountdownTick @ [ClickCancel] @ replicate m CountdownTick) (shown ?h)))
         \<and> emergency_calls (hook_state (app_run e p
              (replicate n CountdownTick @ [ClickCancel] @ replicate m CountdownTick) (shown ?h)))
              = emergency_calls (hook_state s)"
    if "n < 10"
    using that ins shown_cancel [OF ins(1) that, of e p m]
    by (simp add: shown_ticks_before hidden_def step_alert_cancel)
  have 3: "hook_state (app_run e p (replicate n CountdownTick) (shown ?h))
              = step e (EmergencyCall p) ?h
         \<and> emergency_calls (hook_state (app_run e p (replicate n CountdownTick) (shown ?h)))
              = Suc (emergency_calls (hook_state s))
         \<and> \<not> isFallDetected (hook_state (app_run e p (replicate n CountdownTick) (shown ?h)))
         \<and> \<not> countdown_interval (alert_state (app_run e p (replicate n CountdownTick)
              (shown ?h)))"
    if "10 \<le> n"
    using that ins shown_ticks_after [OF ins(1) that, of e p]
    by (simp add: hidden_def step_emergency_call)
  from 1 2 3 show ?thesis unfolding sh by blast
qed

theorem countdown_triggers_call_witness:
  "app_reachable good_env guardian (app_mount good_env)
   \<and> \<not> isFallDetected (hook_state (app_mount good_env))
   \<and> countdown (alert_state (app_run good_env guardian (replicate 3 CountdownTick)
        (app_step good_env guardian (HookEvent (InsertEvent 1)) (app_mount good_env)))) = 7
   \<and> emergency_calls (hook_state (app_run good_env guardian (replicate 3 CountdownTick)
        (app_step good_env guardian (HookEvent (InsertEvent 1)) (app_mount good_env)))) = 0
   \<and> emergency_calls (hook_state (app_run good_env guardian
        (replicate 3 CountdownTick @ [ClickCancel] @ replicate 20 CountdownTick)
        (app_step good_env guardian (HookEvent (InsertEvent 1)) (app_mount good_env)))) = 0
   \<and> emergency_calls (hook_state (app_run good_env guardian (replicate 10 CountdownTick)
        (app_step good_env guardian (HookEvent (InsertEvent 1)) (app_mount good_env)))) = 1
   \<and> navigations (hook_state (app_run good_env guardian (replicate 10 CountdownTick)
        (app_step good_env guardian (HookEvent (InsertEvent 1)) (app_mount good_env))))
       = [''tel:01012345678'']"
proof -
  have r: "app_reachable good_env guardian (app_mount good_env)"
    by (rule app_reachable_mount)
  have h: "hook_state (app_mount good_env) = after_mount"
    by (simp add: app_mount_def mount_env_ok good_env_ok)
  have v: "\<not> isFallDetected (hook_state (app_mount good_env))"
    by (simp add: h after_mount_def)
  have f: "find (\<lambda>ch. channel_id ch = 1) (channels (hook_state (app_mount good_env)))
      = Some \<lparr>channel_id = 1, cap_active = True, cap_attempts = 0\<rparr>"
    by (simp add: h after_mount_def)
  have z: "emergency_calls (hook_state (app_mount good_env)) = 0"
    "navigations (hook_state (app_mount good_env)) = []"
    by (simp_all add: h after_mount_def emergency_calls_def)
  have g: "guardian \<noteq> []" "''tel:'' @ guardian = ''tel:01012345678''"
    by (simp_all add: guardian_def)
  let ?s = "app_step good_env guardian (HookEvent (InsertEvent 1)) (app_mount good_env)"
  have lt: "(3::nat) < 10" and ge: "(10::nat) \<le> 10" by simp_all
  from countdown_triggers_call [OF r v f, of 3 20] lt
  have a: "countdown (alert_state (app_run good_env guardian (replicate 3 CountdownTick) ?s))
        = 10 - int 3"
    "emergency_calls (hook_state (app_run good_env guardian (replicate 3 CountdownTick) ?s))
        = emergency_calls (hook_state (app_mount good_env))"
    "emergency_calls (hook_state (app_run good_env guardian
        (replicate 3 CountdownTick @ [ClickCancel] @ replicate 20 CountdownTick) ?s))
        = emergency_calls (hook_state (app_mount good_env))"
    by blast+
  from countdown_triggers_call [OF r v f, of 10 0] ge
  have b: "hook_state (app_run good_env guardian (replicate 10 CountdownTick) ?s)
        = step good_env (EmergencyCall guardian)
            (step good_env (InsertEvent 1) (hook_state (app_mount good_env)))"
    "emergency_calls (hook_state (app_run good_env guardian (replicate 10 CountdownTick) ?s))
        = Suc (emergency_calls (hook_state (app_mount good_env)))"
    by blast+
  have n: "navigations (step good_env (EmergencyCall guardian)
          (step good_env (InsertEvent 1) (hook_state (app_mount good_env))))
        = [''tel:01012345678'']"
    using step_emergency_call(3) [OF g(1)] step_insert(3) [OF f] z(2) g(2) by simp
  have nav: "navigations (hook_state (app_run good_env guardian (replicate 10 CountdownTick) ?s))
        = [''tel:01012345678'']"
    by (simp only: b(1) n)
  have c: "10 - int 3 = 7" by simp
  show ?thesis
    unfolding a b(2) nav z c using r v by simp
qed

section \<open>Properties of the diagnosis polling\<close>

subsection \<open>One tick, case by case\<close>

lemma clear_interval_fields [simp]:
  "length (loops (clear_interval i s)) = length (loops s)"
  "isAnalyzing (clear_interval i s) = isAnalyzing s"
  "page_alerts (clear_interval i s) = page_alerts s"
  "analysisProgress (clear_interval i s) = analysisProgress s"
  "analysisMessage (clear_interval i s) = analysisMessage s"
  "gaitData (clear_interval i s) = gaitData s"
  "completion_timers (clear_interval i s) = completion_timers s"
  "console_warnings (clear_interval i s) = console_warnings s"
  by (simp_all add: clear_interval_def)

lemma display_fields [simp]:
  "loops (display out s) = loops s"
  "isAnalyzing (display out s) = isAnalyzing s"
  "page_alerts (display out s) = page_alerts s"
  "gaitData (display out s) = gaitData s"
  "completion_timers (display out s) = completion_timers s"
  "console_warnings (display out s) = console_warnings s"
  by (simp_all add: display_def split: sum.splits option.splits)

lemma ticks_append: "ticks i (xs @ ys) s = ticks i ys (ticks i xs s)"
  by (induction xs arbitrary: s) simp_all

lemma tick_rejected:
  assumes "i < length (loops s)" and "interval_set (loops s ! i)"
  shows "tick i (Inl err) s =
           s\<lparr>loops := (loops s)[i := (loops s ! i)\<lparr>attempts := Suc (attempts (loops s ! i)),
                                                     interval_set := False\<rparr>],
             isAnalyzing := False,
             page_alerts := page_alerts s @ [AlertPollingError err]\<rparr>"
  using assms by (simp add: tick_def fire_def resume_def polling_failed_def clear_interval_def)


lemma tick_non_terminal:
  assumes "i < length (loops s)" and "interval_set (loops s ! i)" and "non_terminal out"
    and "Suc (attempts (loops s ! i)) < maxAttempts"
  shows "tick i out s =
           (display out s)\<lparr>loops := (loops s)[i := (loops s ! i)\<lparr>attempts :=
                                                     Suc (attempts (loops s ! i))\<rparr>]\<rparr>"
  using assms
  by (auto simp: tick_def fire_def resume_def after_await_def non_terminal_def display_def Let_def
      split: sum.splits option.splits)

lemma tick_deadline:
  assumes "i < length (loops s)" and "interval_set (loops s ! i)" and "non_terminal out"
    and "maxAttempts \<le> Suc (attempts (loops s ! i))"
  shows "tick i out s =
           (display out s)\<lparr>loops := (loops s)[i := (loops s ! i)\<lparr>attempts :=
                                                     Suc (attempts (loops s ! i)),
                                                   interval_set := False\<rparr>],
              isAnalyzing := False,
              page_alerts := page_alerts s @ [AlertPollingError (Error (JStr msg_timeout))]\<rparr>"
  using assms
  by (auto simp: tick_def fire_def resume_def after_await_def non_terminal_def display_def Let_def
      polling_failed_def clear_interval_def split: sum.splits option.splits)

lemma tick_failed:
  assumes "i < length (loops s)" and "interval_set (loops s ! i)"
    and "opt_field statusResponse ''data'' = Some status" and "truthy status"
    and "field status ''status'' = Some (JStr ''failed'')"
  shows "tick i (Inr statusResponse) s =
           s\<lparr>analysisProgress := js_or (field status ''progress'') (JNum 0),
             analysisMessage := js_or (field status ''message'') (JStr msg_analyzing),
             loops := (loops s)[i := (loops s ! i)\<lparr>attempts := Suc (attempts (loops s ! i)),
                                                     interval_set := False\<rparr>],
             isAnalyzing := False,
             page_alerts := page_alerts s @
               [AlertPollingError
                  (Error (js_or (field status ''error'') (JStr msg_failed_default)))]\<rparr>"
  using assms
  by (simp add: tick_def fire_def resume_def after_await_def Let_def polling_failed_def
      clear_interval_def)

lemma tick_completed:
  assumes "i < length (loops s)" and "interval_set (loops s ! i)"
    and "opt_field r ''data'' = Some st" and "truthy st"
    and "field st ''status'' = Some (JStr ''completed'')"
  shows "tick i (Inr r) s =
     (let s0 = s\<lparr>loops := (loops s)[i := (loops s ! i)\<lparr>attempts :=
                                                   Suc (attempts (loops s ! i)),
                                                 interval_set := False\<rparr>]\<rparr>
      in case on_completed st s0 of
           (s1, None) \<Rightarrow> s1
         | (s1, Some err) \<Rightarrow>
             s1\<lparr>isAnalyzing := False, page_alerts := page_alerts s1 @ [AlertPollingError err]\<rparr>)"
  using assms
  by (simp add: tick_def fire_def resume_def after_await_def Let_def polling_failed_def
      clear_interval_def on_completed_def split: option.splits prod.splits)

lemma ticks_non_terminal:
  assumes "i < length (loops s)" and "interval_set (loops s ! i)"
    and "list_all non_terminal outs"
    and "attempts (loops s ! i) + length outs < maxAttempts"
  shows "length (loops (ticks i outs s)) = length (loops s)
       \<and> loops (ticks i outs s) ! i
           = (loops s ! i)\<lparr>attempts := attempts (loops s ! i) + length outs\<rparr>
       \<and> isAnalyzing (ticks i outs s) = isAnalyzing s
       \<and> page_alerts (ticks i outs s) = page_alerts s"
  using assms
proof (induction outs arbitrary: s)
  case Nil
  then show ?case by simp
next
  case (Cons out outs)
  let ?t = "tick i out s"
  from Cons.prems have t: "?t = (display out s)\<lparr>loops :=
      (loops s)[i := (loops s ! i)\<lparr>attempts := Suc (attempts (loops s ! i))\<rparr>]\<rparr>"
    by (intro tick_non_terminal) simp_all
  from Cons.prems have l: "i < length (loops ?t)" "interval_set (loops ?t ! i)"
    "attempts (loops ?t ! i) + length outs < maxAttempts" "list_all non_terminal outs"
    by (simp_all add: t)
  from Cons.IH [OF l(1) l(2) l(4) l(3)] Cons.prems(1) show ?case
    by (simp add: t)
qed

text \<open>Evaluation of the concrete runs.\<close>

lemmas page_defs =
  tick_def fire_def resume_def after_await_def on_completed_def polling_failed_def
  clear_interval_def handleStartAnalysis_def request_failed_def completion_fire_def
  status_response_def processing_def completed_with_def network_error_def accepted_def
  user_kim_def Let_def

lemma fallback_is_object:
  "truthy fallback_gaitData" "is_object fallback_gaitData"
  "\<not> in_operator_throws fallback_gaitData" "field fallback_gaitData ''success'' = None"
  by (simp_all add: fallback_gaitData_def)

lemma msg_timeout_not_default: "msg_failed_default \<noteq> msg_timeout"
  by (simp add: msg_failed_default_def msg_timeout_def)

lemma msg_timeout_not_empty: "msg_timeout \<noteq> []"
  by (simp add: msg_timeout_def)

lemma start_job_A: "page_step user_kim (ClickStart (accepted ''job-A'')) page0 = polling_A"
  by (simp add: page0_def polling_A_def page_defs)

lemma polling_A_loop:
  "0 < length (loops polling_A)" "interval_set (loops polling_A ! 0)"
  "attempts (loops polling_A ! 0) = 0" "in_flight (loops polling_A ! 0) = 0"
  "page_alerts polling_A = []" "isAnalyzing polling_A"
  by (simp_all add: polling_A_def)

lemma non_terminal_processing: "non_terminal (status_response (processing p))"
  by (simp add: non_terminal_def status_response_def processing_def)

subsection \<open>A failed status query\<close>




subsection \<open>A malformed result\<close>

text \<open>
  The other results of a completed status: a result that is absent or falsy throws the
  "no result" error; a truthy primitive makes the \<^verbatim>\<open>in\<close> test of l.93 throw, so the
  tick ends in the error alert; an object or array (unwrapped from \<^verbatim>\<open>{success, data}\<close>
  or not) becomes the result as it is, whatever fields it lacks.
\<close>

lemma primitive_result_throws:
  assumes "i < length (loops s)" and "interval_set (loops s ! i)"
    and "opt_field r ''data'' = Some st" and "truthy st"
    and "field st ''status'' = Some (JStr ''completed'')"
    and "field st ''result'' = Some res" and "truthy res" and "in_operator_throws res"
  shows "page_alerts (tick i (Inr r) s) = page_alerts s @ [AlertPollingError TypeError]"
    and "gaitData (tick i (Inr r) s) = gaitData s"
    and "\<not> isAnalyzing (tick i (Inr r) s)"
  using tick_completed [OF assms(1-5)] assms(6-8)
  by (simp_all add: on_completed_def Let_def)

lemma object_result_passes_through:
  assumes "i < length (loops s)" and "interval_set (loops s ! i)"
    and "opt_field r ''data'' = Some st" and "truthy st"
    and "field st ''status'' = Some (JStr ''completed'')"
    and "field st ''result'' = Some res" and "\<not> in_operator_throws res"
    and "\<not> truthy_opt (field res ''success'') \<or> \<not> truthy_opt (field res ''data'')"
  shows "gaitData (tick i (Inr r) s) = Some res"
    and "console_warnings (tick i (Inr r) s) = console_warnings s"
    and "page_alerts (tick i (Inr r) s) = page_alerts s"
proof -
  from assms(7) have "truthy res \<and> is_object res" by (cases res) simp_all
  with tick_completed [OF assms(1-5)] assms(6-8)
  show "gaitData (tick i (Inr r) s) = Some res"
    and "console_warnings (tick i (Inr r) s) = console_warnings s"
    and "page_alerts (tick i (Inr r) s) = page_alerts s"
    by (auto simp: on_completed_def Let_def)
qed

text \<open>
  C2, as the code has it. When a tick returns the status \<^verbatim>\<open>completed\<close> with a result
  object whose \<^verbatim>\<open>success\<close> and \<^verbatim>\<open>data\<close> fields are truthy and whose \<^verbatim>\<open>data\<close> is not an
  object (the case the structure check of l.113 catches), nothing is thrown, the interval
  is cleared, the hard-coded placeholder report becomes the result and the completion is
  scheduled as for any result. The anomaly goes to \<^verbatim>\<open>console.warn\<close> only: apart from
  that log, the state is the one a well-formed result equal to the placeholder produces,
  so the caller gets no warning flag.
\<close>

theorem malformed_result_gets_placeholder:
  assumes "i < length (loops s)" and "interval_set (loops s ! i)"
    and "opt_field r ''data'' = Some st" and "truthy st"
    and "field st ''status'' = Some (JStr ''completed'')"
    and "field st ''result'' = Some res" and "\<not> in_operator_throws res"
    and "truthy_opt (field res ''success'')" and "field res ''data'' = Some d"
    and "truthy d" and "\<not> is_object d"
    and "opt_field r' ''data'' = Some st'" and "truthy st'"
    and "field st' ''status'' = Some (JStr ''completed'')"
    and "field st' ''result'' = Some fallback_gaitData"
  shows "gaitData (tick i (Inr r) s) = Some fallback_gaitData
       \<and> \<not> interval_set (loops (tick i (Inr r) s) ! i)
       \<and> page_alerts (tick i (Inr r) s) = page_alerts s
       \<and> analysisProgress (tick i (Inr r) s) = JNum 100
       \<and> completion_timers (tick i (Inr r) s) = Suc (completion_timers s)
       \<and> console_warnings (tick i (Inr r) s) = console_warnings s @ [d]
       \<and> (tick i (Inr r) s)\<lparr>console_warnings := console_warnings s\<rparr> = tick i (Inr r') s"
proof -
  let ?s0 = "s\<lparr>loops := (loops s)[i := (loops s ! i)\<lparr>attempts := Suc (attempts (loops s ! i)),
                interval_set := False\<rparr>]\<rparr>"
  from assms(7) have tr: "truthy res" by (cases res) simp_all
  have bad: "on_completed st ?s0 =
      (?s0\<lparr>analysisProgress := JNum 100, analysisMessage := JStr msg_done,
            console_warnings := console_warnings s @ [d], gaitData := Some fallback_gaitData,
            completion_timers := Suc (completion_timers s)\<rparr>, None)"
    using assms(6-11) tr by (simp add: on_completed_def Let_def)
  have good: "on_completed st' ?s0 =
      (?s0\<lparr>analysisProgress := JNum 100, analysisMessage := JStr msg_done,
            gaitData := Some fallback_gaitData,
            completion_timers := Suc (completion_timers s)\<rparr>, None)"
    using assms(15) fallback_is_object by (simp add: on_completed_def Let_def)
  have t: "tick i (Inr r) s =
      ?s0\<lparr>analysisProgress := JNum 100, analysisMessage := JStr msg_done,
          console_warnings := console_warnings s @ [d], gaitData := Some fallback_gaitData,
          completion_timers := Suc (completion_timers s)\<rparr>"
    using tick_completed [OF assms(1-5)] bad by (simp add: Let_def)
  have t': "tick i (Inr r') s =
      ?s0\<lparr>analysisProgress := JNum 100, analysisMessage := JStr msg_done,
          gaitData := Some fallback_gaitData,
          completion_timers := Suc (completion_timers s)\<rparr>"
    using tick_completed [OF assms(1,2) assms(12-14)] good by (simp add: Let_def)
  show ?thesis unfolding t t' using assms(1) by simp
qed

theorem malformed_result_gets_placeholder_witness:
  "0 < length (loops polling_A) \<and> interval_set (loops polling_A ! 0)
   \<and> field (completed_with malformed_result) ''result'' = Some malformed_result
   \<and> field malformed_result ''data'' = Some (JStr ''oops'') \<and> \<not> is_object (JStr ''oops'')
   \<and> gaitData (tick 0 (Inr (Some (JObj [(''data'', completed_with malformed_result)])))
        polling_A) = Some fallback_gaitData
   \<and> console_warnings (tick 0 (Inr (Some (JObj [(''data'', completed_with malformed_result)])))
        polling_A) = [JStr ''oops'']
   \<and> page_alerts (tick 0 (Inr (Some (JObj [(''data'', completed_with malformed_result)])))
        polling_A) = []"
proof -
  have a: "opt_field (Some (JObj [(''data'', completed_with malformed_result)])) ''data''
      = Some (completed_with malformed_result)"
    "truthy (completed_with malformed_result)"
    "field (completed_with malformed_result) ''status'' = Some (JStr ''completed'')"
    "field (completed_with malformed_result) ''result'' = Some malformed_result"
    by (simp_all add: completed_with_def)
  have b: "\<not> in_operator_throws malformed_result"
    "truthy_opt (field malformed_result ''success'')"
    "field malformed_result ''data'' = Some (JStr ''oops'')"
    "truthy (JStr ''oops'')" "\<not> is_object (JStr ''oops'')"
    by (simp_all add: malformed_result_def)
  have c: "opt_field (Some (JObj [(''data'', completed_with fallback_gaitData)])) ''data''
      = Some (completed_with fallback_gaitData)"
    "truthy (completed_with fallback_gaitData)"
    "field (completed_with fallback_gaitData) ''status'' = Some (JStr ''completed'')"
    "field (completed_with fallback_gaitData) ''result'' = Some fallback_gaitData"
    by (simp_all add: completed_with_def)
  have w: "console_warnings polling_A = []" by (simp add: polling_A_def)
  from malformed_result_gets_placeholder [OF polling_A_loop(1,2) a b c] a(4) b(3,5)
    polling_A_loop w
  show ?thesis by simp
qed

text \<open>
  C2 as stated fails: for the result \<^verbatim>\<open>{success: true, data: "oops"}\<close> the placeholder
  report is shown, no alert or flag is raised, and the whole state (the console log apart)
  equals the state after a well-formed result that is the placeholder report itself.
\<close>

theorem malformed_result_looks_successful:
  "gaitData (tick 0 (status_response (completed_with malformed_result)) polling_A)
     = Some fallback_gaitData
   \<and> page_alerts (tick 0 (status_response (completed_with malformed_result)) polling_A) = []
   \<and> (tick 0 (status_response (completed_with malformed_result)) polling_A)
       \<lparr>console_warnings := []\<rparr>
     = tick 0 (status_response (completed_with fallback_gaitData)) polling_A"
  by (simp add: polling_A_def malformed_result_def fallback_is_object page_defs)

subsection \<open>The deadline\<close>

lemma after_59_ticks:
  assumes "list_all non_terminal outs" and "length outs = 59"
  shows "0 < length (loops (ticks 0 outs polling_A))"
    and "interval_set (loops (ticks 0 outs polling_A) ! 0)"
    and "attempts (loops (ticks 0 outs polling_A) ! 0) = 59"
    and "page_alerts (ticks 0 outs polling_A) = []"
  using ticks_non_terminal [OF polling_A_loop(1,2) assms(1)] assms(2) polling_A_loop
  by (simp_all add: maxAttempts_def)

text \<open>
  C4, as the code has it. Take a run in which every status query is answered before the
  next tick of the interval. When all 60 ticks of a fresh loop return a non-terminal
  answer, the loop goes on through the first 59 ticks without an alert, and the 60th tick
  clears the interval, ends the analysing state and shows the error alert with the fixed
  time-out message. A failure reported by the server goes through the same
  \<^verbatim>\<open>catch\<close>: it clears the interval, ends the analysing state and shows the same kind of
  alert with the server's error text (or the default text when the \<^verbatim>\<open>error\<close> field is
  absent or falsy). The two alerts differ in their message only: when the text thrown for
  the failure is a string, the two alerts are one and the same if that string is the
  time-out message, and distinct if it is any other string (the default text is another
  string).
\<close>

theorem timeout_after_max_attempts:
  assumes "i < length (loops s)" and "interval_set (loops s ! i)"
    and "attempts (loops s ! i) = 0"
    and "length outs = maxAttempts" and "list_all non_terminal outs"
  shows "(k < maxAttempts \<longrightarrow>
            interval_set (loops (ticks i (take k outs) s) ! i)
            \<and> page_alerts (ticks i (take k outs) s) = page_alerts s
            \<and> isAnalyzing (ticks i (take k outs) s) = isAnalyzing s)
       \<and> \<not> interval_set (loops (ticks i outs s) ! i)
       \<and> \<not> isAnalyzing (ticks i outs s)
       \<and> page_alerts (ticks i outs s)
           = page_alerts s @ [AlertPollingError (Error (JStr msg_timeout))]
       \<and> (opt_field statusResponse ''data'' = Some status \<and> truthy status
            \<and> field status ''status'' = Some (JStr ''failed'') \<longrightarrow>
          page_alerts (tick i (Inr statusResponse) s) = page_alerts s @
            [AlertPollingError (Error (js_or (field status ''error'') (JStr msg_failed_default)))]
          \<and> \<not> interval_set (loops (tick i (Inr statusResponse) s) ! i)
          \<and> \<not> isAnalyzing (tick i (Inr statusResponse) s)
          \<and> (js_or (field status ''error'') (JStr msg_failed_default) = JStr text \<longrightarrow>
               (page_alerts (tick i (Inr statusResponse) s) = page_alerts (ticks i outs s))
                 = (text = msg_timeout)))"
proof -
  have before: "interval_set (loops (ticks i (take k outs) s) ! i)
            \<and> page_alerts (ticks i (take k outs) s) = page_alerts s
            \<and> isAnalyzing (ticks i (take k outs) s) = isAnalyzing s
            \<and> i < length (loops (ticks i (take k outs) s))
            \<and> attempts (loops (ticks i (take k outs) s) ! i) = k"
    if "k < maxAttempts" for k
  proof -
    from assms(5) have "list_all non_terminal (take k outs)"
      by (auto simp: list_all_iff dest: in_set_takeD)
    moreover from that assms(3,4)
    have "attempts (loops s ! i) + length (take k outs) < maxAttempts"
      by simp
    ultimately show ?thesis
      using ticks_non_terminal [OF assms(1,2), of "take k outs"] assms(1,2,3,4) that by simp
  qed
  obtain out where last: "outs = take 59 outs @ [out]" and nt: "non_terminal out"
  proof -
    from assms(4) have "outs \<noteq> []" by (auto simp: maxAttempts_def)
    then have "outs = butlast outs @ [last outs]" by simp
    moreover from assms(4) have "butlast outs = take 59 outs"
      by (simp add: butlast_conv_take maxAttempts_def)
    moreover from assms(5) \<open>outs \<noteq> []\<close> have "non_terminal (last outs)"
      by (simp add: list_all_iff)
    ultimately show ?thesis using that by metis
  qed
  let ?s = "ticks i (take 59 outs) s"
  have b59: "interval_set (loops ?s ! i)" "page_alerts ?s = page_alerts s"
    "i < length (loops ?s)" "attempts (loops ?s ! i) = 59"
    using before [of 59] by (simp_all add: maxAttempts_def)
  have fin: "ticks i outs s = tick i out ?s"
    by (subst last) (simp add: ticks_append)
  have dl: "tick i out ?s =
      (display out ?s)\<lparr>loops := (loops ?s)[i := (loops ?s ! i)\<lparr>attempts :=
                                                   Suc (attempts (loops ?s ! i)),
                                                 interval_set := False\<rparr>],
         isAnalyzing := False,
         page_alerts := page_alerts ?s @ [AlertPollingError (Error (JStr msg_timeout))]\<rparr>"
    using b59 nt by (intro tick_deadline) (simp_all add: maxAttempts_def)
  have after: "\<not> interval_set (loops (ticks i outs s) ! i)" "\<not> isAnalyzing (ticks i outs s)"
    "page_alerts (ticks i outs s)
       = page_alerts s @ [AlertPollingError (Error (JStr msg_timeout))]"
    unfolding fin dl using b59 by simp_all
  have failed: "page_alerts (tick i (Inr statusResponse) s) = page_alerts s @
            [AlertPollingError (Error (js_or (field status ''error'') (JStr msg_failed_default)))]
          \<and> \<not> interval_set (loops (tick i (Inr statusResponse) s) ! i)
          \<and> \<not> isAnalyzing (tick i (Inr statusResponse) s)
          \<and> (js_or (field status ''error'') (JStr msg_failed_default) = JStr text \<longrightarrow>
               (page_alerts (tick i (Inr statusResponse) s) = page_alerts (ticks i outs s))
                 = (text = msg_timeout))"
    if "opt_field statusResponse ''data'' = Some status" and "truthy status"
      and "field status ''status'' = Some (JStr ''failed'')"
    using tick_failed [OF assms(1,2) that] assms(1) after(3)
    by simp
  from before [of k] after failed show ?thesis by blast
qed

theorem timeout_after_max_attempts_witness:
  "0 < length (loops polling_A) \<and> interval_set (loops polling_A ! 0)
   \<and> attempts (loops polling_A ! 0) = 0
   \<and> length (replicate 60 (status_response (processing 50))) = maxAttempts
   \<and> list_all non_terminal (replicate 60 (status_response (processing 50)))
   \<and> js_or (field (JObj [(''status'', JStr ''failed'')]) ''error'') (JStr msg_failed_default)
       = JStr msg_failed_default
   \<and> interval_set
       (loops (ticks 0 (take 59 (replicate 60 (status_response (processing 50)))) polling_A) ! 0)
   \<and> \<not> interval_set
       (loops (ticks 0 (replicate 60 (status_response (processing 50))) polling_A) ! 0)
   \<and> page_alerts (ticks 0 (replicate 60 (status_response (processing 50))) polling_A)
       = [AlertPollingError (Error (JStr msg_timeout))]
   \<and> page_alerts (tick 0 (Inr (Some (JObj [(''data'', JObj [(''status'', JStr ''failed'')])])))
        polling_A) = [AlertPollingError (Error (JStr msg_failed_default))]
   \<and> page_alerts (tick 0 (Inr (Some (JObj [(''data'', JObj [(''status'', JStr ''failed'')])])))
        polling_A)
       \<noteq> page_alerts (ticks 0 (replicate 60 (status_response (processing 50))) polling_A)"
proof -
  have l: "length (replicate 60 (status_response (processing 50))) = maxAttempts"
    by (simp add: maxAttempts_def)
  have n: "list_all non_terminal (replicate 60 (status_response (processing 50)))"
    by (simp add: list_all_iff non_terminal_processing)
  have k: "(59::nat) < maxAttempts" by (simp add: maxAttempts_def)
  have f: "opt_field (Some (JObj [(''data'', JObj [(''status'', JStr ''failed'')])])) ''data''
        = Some (JObj [(''status'', JStr ''failed'')])
      \<and> truthy (JObj [(''status'', JStr ''failed'')])
      \<and> field (JObj [(''status'', JStr ''failed'')]) ''status'' = Some (JStr ''failed'')"
    by simp
  have d: "js_or (field (JObj [(''status'', JStr ''failed'')]) ''error'') (JStr msg_failed_default)
      = JStr msg_failed_default"
    by simp
  from timeout_after_max_attempts [OF polling_A_loop(1,2,3) l n,
      of 59 "Some (JObj [(''data'', JObj [(''status'', JStr ''failed'')])])"
         "JObj [(''status'', JStr ''failed'')]" msg_failed_default] k f d
  have "interval_set
       (loops (ticks 0 (take 59 (replicate 60 (status_response (processing 50)))) polling_A) ! 0)"
    and "\<not> interval_set
       (loops (ticks 0 (replicate 60 (status_response (processing 50))) polling_A) ! 0)"
    and "page_alerts (ticks 0 (replicate 60 (status_response (processing 50))) polling_A)
       = page_alerts polling_A @ [AlertPollingError (Error (JStr msg_timeout))]"
    and "page_alerts (tick 0 (Inr (Some (JObj [(''data'', JObj [(''status'', JStr ''failed'')])])))
        polling_A) = page_alerts polling_A @
          [AlertPollingError (Error (js_or (field (JObj [(''status'', JStr ''failed'')]) ''error'')
             (JStr msg_failed_default)))]"
    and "(page_alerts (tick 0 (Inr (Some (JObj [(''data'', JObj [(''status'', JStr ''failed'')])])))
        polling_A)
       = page_alerts (ticks 0 (replicate 60 (status_response (processing 50))) polling_A))
       = (msg_failed_default = msg_timeout)"
    by blast+
  with polling_A_loop l n d msg_timeout_not_default show ?thesis by simp
qed

text \<open>
  C4 as stated fails: a run of 60 ticks that all report \<^verbatim>\<open>processing\<close> and a run whose
  60th tick reports \<^verbatim>\<open>failed\<close> with the time-out message as its error text end in the
  same state, with the same alert: the caller cannot tell the time-out from the failure.
\<close>

theorem timeout_same_as_server_failure:
  "ticks 0 (replicate 59 (status_response (processing 50))
            @ [status_response (processing 50)]) polling_A
     = ticks 0 (replicate 59 (status_response (processing 50))
                @ [status_response failed_with_timeout_text]) polling_A
   \<and> page_alerts (ticks 0 (replicate 59 (status_response (processing 50))
                            @ [status_response (processing 50)]) polling_A)
       = [AlertPollingError (Error (JStr msg_timeout))]"
proof -
  let ?outs = "replicate 59 (status_response (processing 50))"
  let ?s = "ticks 0 ?outs polling_A"
  have "list_all non_terminal ?outs" by (simp add: list_all_iff non_terminal_processing)
  moreover have "length ?outs = 59" by simp
  ultimately have s: "0 < length (loops ?s)" "interval_set (loops ?s ! 0)"
    "attempts (loops ?s ! 0) = 59" "page_alerts ?s = []"
    by (rule after_59_ticks)+
  have dl: "maxAttempts \<le> Suc (attempts (loops ?s ! 0))"
    using s(3) by (simp add: maxAttempts_def)
  have f: "opt_field (Some (JObj [(''success'', JBool True), (''data'', failed_with_timeout_text)]))
        ''data'' = Some failed_with_timeout_text"
    "truthy failed_with_timeout_text"
    "field failed_with_timeout_text ''status'' = Some (JStr ''failed'')"
    by (simp_all add: failed_with_timeout_text_def)
  have a: "tick 0 (status_response (processing 50)) ?s =
      ?s\<lparr>analysisProgress := JNum 50, analysisMessage := JStr ''working'',
         loops := (loops ?s)[0 := (loops ?s ! 0)\<lparr>attempts := Suc (attempts (loops ?s ! 0)),
                                                 interval_set := False\<rparr>],
         isAnalyzing := False,
         page_alerts := page_alerts ?s @ [AlertPollingError (Error (JStr msg_timeout))]\<rparr>"
    using tick_deadline [OF s(1,2) non_terminal_processing dl, of 50]
    by (simp add: display_def status_response_def processing_def)
  have b: "tick 0 (status_response failed_with_timeout_text) ?s =
      ?s\<lparr>analysisProgress := JNum 50, analysisMessage := JStr ''working'',
         loops := (loops ?s)[0 := (loops ?s ! 0)\<lparr>attempts := Suc (attempts (loops ?s ! 0)),
                                                 interval_set := False\<rparr>],
         isAnalyzing := False,
         page_alerts := page_alerts ?s @ [AlertPollingError (Error (JStr msg_timeout))]\<rparr>"
    using tick_failed [OF s(1,2) f] msg_timeout_not_empty
    by (simp add: status_response_def failed_with_timeout_text_def)
  show ?thesis by (simp add: ticks_append a b s(4))
qed

subsection \<open>The displayed progress\<close>

lemma resume_displays:
  assumes "i < length (loops s)" and "0 < in_flight (loops s ! i)"
    and "opt_field r ''data'' = Some st" and "truthy st"
    and "field st ''status'' \<noteq> Some (JStr ''completed'')"
  shows "analysisProgress (resume i (Inr r) s) = js_or (field st ''progress'') (JNum 0)"
    and "analysisMessage (resume i (Inr r) s) = js_or (field st ''message'') (JStr msg_analyzing)"
  using assms
  by (simp_all add: resume_def after_await_def Let_def polling_failed_def split: prod.splits)

lemma resume_loop:
  assumes "i < length (loops s)" and "0 < in_flight (loops s ! i)"
    and "opt_field r ''data'' = Some st" and "truthy st"
    and "field st ''status'' \<noteq> Some (JStr ''completed'')"
  shows "length (loops (resume i (Inr r) s)) = length (loops s)"
    and "in_flight (loops (resume i (Inr r) s) ! i) = in_flight (loops s ! i) - 1"
  using assms
  by (simp_all add: resume_def after_await_def Let_def polling_failed_def clear_interval_def
      split: prod.splits)

lemma fire_waits:
  assumes "i < length (loops s)" and "interval_set (loops s ! i)"
  shows "i < length (loops (fire i s))" and "0 < in_flight (loops (fire i s) ! i)"
  using assms by (simp_all add: fire_def)

text \<open>
  C5, as the code has it. Whenever the answer to a status query of a loop is processed and
  carries a status object whose status is not \<^verbatim>\<open>completed\<close>, the displayed progress
  becomes the \<^verbatim>\<open>progress\<close> field of that answer (0 when the field is absent or falsy),
  whatever was displayed before and whatever the number of attempts: this holds for the
  answer of a waiting tick processed at any later moment, and for a tick of a running
  interval whose query is answered at once. Nothing compares the value with the one displayed before: when two
  ticks wait and their answers, reporting the numbers p1 and p2, are processed one after
  the other, the page displays p1 and then p2, in the order in which the answers are
  processed.
\<close>

theorem displayed_progress_is_reported_progress:
  assumes "i < length (loops s)"
    and "opt_field r1 ''data'' = Some st1" and "truthy st1"
    and "field st1 ''status'' \<noteq> Some (JStr ''completed'')"
    and "opt_field r2 ''data'' = Some st2" and "truthy st2"
    and "field st2 ''status'' \<noteq> Some (JStr ''completed'')"
  shows "(0 < in_flight (loops s ! i) \<longrightarrow>
            analysisProgress (resume i (Inr r1) s) = js_or (field st1 ''progress'') (JNum 0))
       \<and> (interval_set (loops s ! i) \<longrightarrow>
            analysisProgress (tick i (Inr r1) s) = js_or (field st1 ''progress'') (JNum 0))
       \<and> (1 < in_flight (loops s ! i) \<longrightarrow>
            analysisProgress (resume i (Inr r2) (resume i (Inr r1) s))
              = js_or (field st2 ''progress'') (JNum 0))
       \<and> (1 < in_flight (loops s ! i) \<and> field st1 ''progress'' = Some (JNum p1)
            \<and> field st2 ''progress'' = Some (JNum p2) \<longrightarrow>
            analysisProgress (resume i (Inr r1) s) = JNum p1
            \<and> analysisProgress (resume i (Inr r2) (resume i (Inr r1) s)) = JNum p2)"
proof -
  have a: "analysisProgress (resume i (Inr r1) s) = js_or (field st1 ''progress'') (JNum 0)"
    if "0 < in_flight (loops s ! i)"
    using resume_displays(1) [OF assms(1) that assms(2,3,4)] .
  have b: "analysisProgress (tick i (Inr r1) s) = js_or (field st1 ''progress'') (JNum 0)"
    if "interval_set (loops s ! i)"
    unfolding tick_def
    using resume_displays(1) [OF fire_waits [OF assms(1) that] assms(2,3,4)] .
  have c: "analysisProgress (resume i (Inr r2) (resume i (Inr r1) s))
              = js_or (field st2 ''progress'') (JNum 0)"
    if "1 < in_flight (loops s ! i)"
  proof -
    from that have w: "0 < in_flight (loops s ! i)" by simp
    note l = resume_loop [OF assms(1) w assms(2,3,4)]
    from l assms(1) that
    have "i < length (loops (resume i (Inr r1) s))"
      and "0 < in_flight (loops (resume i (Inr r1) s) ! i)"
      by simp_all
    then show ?thesis using assms(5,6,7) by (rule resume_displays(1))
  qed
  have d: "js_or (Some (JNum p)) (JNum 0) = JNum p" for p by simp
  from a b c d show ?thesis by simp
qed

theorem displayed_progress_is_reported_progress_witness:
  "0 < length (loops (fire 0 (fire 0 polling_A)))
   \<and> 1 < in_flight (loops (fire 0 (fire 0 polling_A)) ! 0)
   \<and> interval_set (loops (fire 0 (fire 0 polling_A)) ! 0)
   \<and> truthy (processing 70) \<and> truthy (processing 30)
   \<and> field (processing 70) ''status'' \<noteq> Some (JStr ''completed'')
   \<and> field (processing 30) ''status'' \<noteq> Some (JStr ''completed'')
   \<and> field (processing 70) ''progress'' = Some (JNum 70)
   \<and> field (processing 30) ''progress'' = Some (JNum 30)
   \<and> analysisProgress (resume 0 (Inr (Some (JObj [(''data'', processing 70)])))
        (fire 0 (fire 0 polling_A))) = JNum 70
   \<and> analysisProgress (resume 0 (Inr (Some (JObj [(''data'', processing 30)])))
        (resume 0 (Inr (Some (JObj [(''data'', processing 70)])))
           (fire 0 (fire 0 polling_A)))) = JNum 30
   \<and> analysisProgress (tick 0 (Inr (Some (JObj [(''data'', processing 70)])))
        (fire 0 (fire 0 polling_A))) = JNum 70"
proof -
  have w: "0 < length (loops (fire 0 (fire 0 polling_A)))"
    "1 < in_flight (loops (fire 0 (fire 0 polling_A)) ! 0)"
    "interval_set (loops (fire 0 (fire 0 polling_A)) ! 0)"
    by (simp_all add: polling_A_def fire_def)
  have r: "opt_field (Some (JObj [(''data'', processing p)])) ''data'' = Some (processing p)"
    "truthy (processing p)" "field (processing p) ''status'' \<noteq> Some (JStr ''completed'')"
    "field (processing p) ''progress'' = Some (JNum p)" for p
    by (simp_all add: processing_def)
  have j: "js_or (field (processing 70) ''progress'') (JNum 0) = JNum 70"
    by (simp add: processing_def)
  from displayed_progress_is_reported_progress [OF w(1) r(1-3) r(1-3), of 70 30 70 30]
    w r(4) [of 70] r(4) [of 30]
  have "analysisProgress (resume 0 (Inr (Some (JObj [(''data'', processing 70)])))
        (fire 0 (fire 0 polling_A))) = JNum 70"
    and "analysisProgress (resume 0 (Inr (Some (JObj [(''data'', processing 30)])))
        (resume 0 (Inr (Some (JObj [(''data'', processing 70)])))
           (fire 0 (fire 0 polling_A)))) = JNum 30"
    and "analysisProgress (tick 0 (Inr (Some (JObj [(''data'', processing 70)])))
        (fire 0 (fire 0 polling_A)))
       = js_or (field (processing 70) ''progress'') (JNum 0)"
    by blast+
  with w r(2,3,4) [of 70] r(2,3,4) [of 30] j show ?thesis by simp
qed

text \<open>
  C5 as stated fails: two successive successful ticks of the same job report 50 and then
  30 percent while the job is processing; the page displays 50 and then 30.
\<close>

theorem displayed_progress_decreases:
  "analysisProgress (tick 0 (status_response (processing 50)) polling_A) = JNum 50
   \<and> analysisProgress
       (tick 0 (status_response (processing 30))
          (tick 0 (status_response (processing 50)) polling_A)) = JNum 30
   \<and> interval_set
       (loops (tick 0 (status_response (processing 30))
          (tick 0 (status_response (processing 50)) polling_A)) ! 0)
   \<and> (30::rat) < 50"
  by (simp add: polling_A_def maxAttempts_def page_defs)

subsection \<open>A new job while an earlier one is in flight\<close>

lemma handleStartAnalysis_loops:
  "loops (handleStartAnalysis userInfo request s) = loops s
   \<or> (\<exists>ident. loops (handleStartAnalysis userInfo request s) =
         loops s @ [\<lparr>diagnosisId = ident, attempts = 0, interval_set = True, in_flight = 0\<rparr>])"
  by (auto simp: handleStartAnalysis_def request_failed_def Let_def
      split: sum.splits option.splits)

lemma tick_active_cases:
  assumes "i < length (loops s)" and "interval_set (loops s ! i)"
    and "in_flight (loops s ! i) = 0"
  shows "\<exists>b. loops (tick i out s) =
               (loops s)[i := (loops s ! i)\<lparr>attempts := Suc (attempts (loops s ! i)),
                                               interval_set := b\<rparr>]
           \<and> ((b \<and> isAnalyzing (tick i out s) = isAnalyzing s
                  \<and> completion_timers (tick i out s) = completion_timers s)
              \<or> (\<not> b \<and> \<not> isAnalyzing (tick i out s)
                  \<and> completion_timers (tick i out s) = completion_timers s)
              \<or> (\<not> b \<and> isAnalyzing (tick i out s) = isAnalyzing s
                  \<and> completion_timers (tick i out s) = Suc (completion_timers s)))"
proof (cases out)
  case (Inl err)
  with tick_rejected [OF assms(1,2), of err] show ?thesis
    by (intro exI [of _ False]) simp
next
  case (Inr r)
  show ?thesis
  proof (cases "non_terminal out")
    case True
    show ?thesis
    proof (cases "Suc (attempts (loops s ! i)) < maxAttempts")
      case True
      have "(loops s ! i)\<lparr>attempts := n, interval_set := True\<rparr> = (loops s ! i)\<lparr>attempts := n\<rparr>"
        for n using assms(2) by (cases "loops s ! i") simp
      with True tick_non_terminal [OF assms(1,2) \<open>non_terminal out\<close>] show ?thesis
        by (intro exI [of _ True]) simp
    next
      case False
      with tick_deadline [OF assms(1,2) \<open>non_terminal out\<close>] show ?thesis
        by (intro exI [of _ False]) simp
    qed
  next
    case False
    with Inr obtain st where st: "opt_field r ''data'' = Some st" "truthy st"
      "field st ''status'' = Some (JStr ''completed'')
         \<or> field st ''status'' = Some (JStr ''failed'')"
      by (auto simp: non_terminal_def split: option.splits)
    from st(3) show ?thesis
    proof
      assume c: "field st ''status'' = Some (JStr ''completed'')"
      from tick_completed [OF assms(1,2) st(1,2) c] Inr show ?thesis
        by (intro exI [of _ False])
          (auto simp: Let_def on_completed_def split: option.splits if_splits)
    next
      assume f: "field st ''status'' = Some (JStr ''failed'')"
      from tick_failed [OF assms(1,2) st(1,2) f] Inr show ?thesis
        by (intro exI [of _ False]) simp
    qed
  qed
qed

lemma list_ex_update_self:
  assumes "i < length xs"
    and "\<forall>a < length xs. \<forall>b < length xs. P (xs ! a) \<longrightarrow> P (xs ! b) \<longrightarrow> a = b"
    and "P (xs ! i)"
  shows "list_ex P (xs[i := y]) = P y"
proof -
  have other: "\<And>j. j < length xs \<Longrightarrow> j \<noteq> i \<Longrightarrow> \<not> P (xs ! j)" using assms by blast
  show ?thesis
  proof
    assume "list_ex P (xs[i := y])"
    then obtain k where k: "k < length xs" "P (xs[i := y] ! k)"
      by (auto simp: list_ex_iff in_set_conv_nth)
    with other have "k = i" by (cases "k = i") simp_all
    with k assms(1) show "P y" by simp
  next
    assume "P y"
    moreover from assms(1) have "y \<in> set (xs[i := y])" by (rule set_update_memI)
    ultimately show "list_ex P (xs[i := y])" by (auto simp: list_ex_iff)
  qed
qed

lemma unique_update:
  assumes "i < length xs"
    and "\<forall>a < length xs. \<forall>b < length xs. P (xs ! a) \<longrightarrow> P (xs ! b) \<longrightarrow> a = b"
    and "P (xs ! i)"
  shows "\<forall>a < length (xs[i := y]). \<forall>b < length (xs[i := y]).
           P (xs[i := y] ! a) \<longrightarrow> P (xs[i := y] ! b) \<longrightarrow> a = b"
proof -
  have other: "\<And>j. j < length xs \<Longrightarrow> j \<noteq> i \<Longrightarrow> \<not> P (xs ! j)" using assms by blast
  have "a = i" if "a < length xs" "P (xs[i := y] ! a)" for a
    using that other [of a] by (cases "a = i") simp_all
  then show ?thesis by auto
qed

lemma page_inv_tick:
  assumes "page_inv s"
  shows "page_inv (tick i out s)"
proof (cases "i < length (loops s) \<and> interval_set (loops s ! i)")
  case False
  have "fire i s = s" using False by (auto simp: fire_def)
  moreover have "resume i out s = s"
    using assms by (auto simp: resume_def page_inv_def list_all_iff)
  ultimately show ?thesis using assms by (simp add: tick_def)
next
  case True
  then have i: "i < length (loops s)" and a: "interval_set (loops s ! i)" by simp_all
  from assms i have fl: "in_flight (loops s ! i) = 0" by (simp add: page_inv_def list_all_iff)
  from assms have u: "\<forall>a < length (loops s). \<forall>b < length (loops s).
      interval_set (loops s ! a) \<longrightarrow> interval_set (loops s ! b) \<longrightarrow> a = b"
    by (simp add: page_inv_def)
  from i a have ex: "list_ex interval_set (loops s)" by (auto simp: list_ex_iff)
  with assms have an: "isAnalyzing s" "completion_timers s = 0" by (simp_all add: page_inv_def)
  let ?t = "tick i out s"
  from tick_active_cases [OF i a fl, of out] obtain b where
    l: "loops ?t = (loops s)[i := (loops s ! i)\<lparr>attempts := Suc (attempts (loops s ! i)),
                                                  interval_set := b\<rparr>]"
    and c: "(b \<and> isAnalyzing ?t = isAnalyzing s \<and> completion_timers ?t = completion_timers s)
          \<or> (\<not> b \<and> \<not> isAnalyzing ?t \<and> completion_timers ?t = completion_timers s)
          \<or> (\<not> b \<and> isAnalyzing ?t = isAnalyzing s
               \<and> completion_timers ?t = Suc (completion_timers s))"
    by blast
  have 1: "list_all (\<lambda>l. in_flight l = 0) (loops ?t)"
    using assms i fl unfolding l page_inv_def list_all_iff
    by (auto dest!: set_update_subset_insert [THEN subsetD])
  have 2: "\<forall>a < length (loops ?t). \<forall>b < length (loops ?t).
      interval_set (loops ?t ! a) \<longrightarrow> interval_set (loops ?t ! b) \<longrightarrow> a = b"
    unfolding l by (rule unique_update [OF i u a])
  have 3: "list_ex interval_set (loops ?t) = b"
    unfolding l using list_ex_update_self [OF i u a] by simp
  from c an 1 2 3 show ?thesis unfolding page_inv_def by auto
qed

lemma page_inv_start:
  assumes "page_inv s" and "\<not> isAnalyzing s"
  shows "page_inv (handleStartAnalysis userInfo request s)"
proof -
  from assms have none: "\<not> list_ex interval_set (loops s)" and ct: "completion_timers s = 0"
    by (auto simp: page_inv_def)
  then have n: "\<And>j. j < length (loops s) \<Longrightarrow> \<not> interval_set (loops s ! j)"
    by (auto simp: list_ex_iff)
  have fields: "completion_timers (handleStartAnalysis userInfo request s) = completion_timers s"
    by (auto simp: handleStartAnalysis_def request_failed_def Let_def
        split: sum.splits option.splits)
  from handleStartAnalysis_loops [of userInfo request s] show ?thesis
  proof
    assume same: "loops (handleStartAnalysis userInfo request s) = loops s"
    with assms none ct fields show ?thesis by (auto simp: page_inv_def)
  next
    assume "\<exists>ident. loops (handleStartAnalysis userInfo request s) =
         loops s @ [\<lparr>diagnosisId = ident, attempts = 0, interval_set = True, in_flight = 0\<rparr>]"
    then obtain ident where new: "loops (handleStartAnalysis userInfo request s) =
         loops s @ [\<lparr>diagnosisId = ident, attempts = 0, interval_set = True, in_flight = 0\<rparr>]" ..
    have an: "isAnalyzing (handleStartAnalysis userInfo request s)"
      using new by (auto simp: handleStartAnalysis_def request_failed_def Let_def
          split: sum.splits option.splits if_splits)
    from assms(1) have fl: "list_all (\<lambda>l. in_flight l = 0) (loops s)"
      by (simp add: page_inv_def)
    have u: "\<forall>a < length (loops s @ [x]). \<forall>b < length (loops s @ [x]).
        interval_set ((loops s @ [x]) ! a) \<longrightarrow> interval_set ((loops s @ [x]) ! b) \<longrightarrow> a = b"
      for x using n by (auto simp: nth_append less_Suc_eq)
    show ?thesis unfolding page_inv_def
      using an fields ct fl u new by (simp add: new)
  qed
qed

lemma page_inv_completion:
  assumes "page_inv s"
  shows "page_inv (completion_fire userInfo s)"
  using assms by (auto simp: page_inv_def completion_fire_def)

lemma page_inv_reachable: "page_reachable userInfo s \<Longrightarrow> page_inv s"
proof (induction rule: page_reachable.induct)
  case page_reachable_init
  show ?case by (simp add: page_inv_def page0_def)
next
  case (page_reachable_step s ev)
  then show ?case
    by (cases ev) (simp_all add: page_inv_tick page_inv_start page_inv_completion)
qed

text \<open>
  C3, as the code has it. handleStartAnalysis invalidates nothing and there is no
  generation token: it leaves every earlier loop as it was (interval and waiting ticks
  included) and only appends the new one; when a waiting tick of any loop, the newest or
  not, gets its answer, the displayed progress and message are overwritten with that
  answer. What protects the page is the start button, disabled while \<^verbatim>\<open>isAnalyzing\<close>
  holds: as long as every status query is answered before the next tick, in every state
  the user can reach no tick is waiting, at most one interval is set, and no interval is
  set while the button is enabled.
\<close>

theorem start_keeps_earlier_loops:
  assumes "i < length (loops s)" and "0 < in_flight (loops s ! i)"
    and "opt_field r ''data'' = Some st" and "truthy st"
    and "field st ''status'' \<noteq> Some (JStr ''completed'')"
    and "page_reachable user t"
  shows "take (length (loops s)) (loops (handleStartAnalysis userInfo request s)) = loops s
       \<and> analysisProgress (resume i (Inr r) (handleStartAnalysis userInfo request s))
           = js_or (field st ''progress'') (JNum 0)
       \<and> analysisMessage (resume i (Inr r) (handleStartAnalysis userInfo request s))
           = js_or (field st ''message'') (JStr msg_analyzing)
       \<and> list_all (\<lambda>l. in_flight l = 0) (loops t)
       \<and> length (filter interval_set (loops t)) \<le> 1
       \<and> (\<not> isAnalyzing t \<longrightarrow> \<not> list_ex interval_set (loops t))"
proof -
  let ?s = "handleStartAnalysis userInfo request s"
  from handleStartAnalysis_loops [of userInfo request s]
  have p: "take (length (loops s)) (loops ?s) = loops s" by auto
  then have "loops ?s ! i = loops s ! i" "i < length (loops ?s)"
    using assms(1) handleStartAnalysis_loops [of userInfo request s]
    by (auto simp: nth_append)
  with assms(2-5) resume_displays [of i ?s r st] p
  have 1: "take (length (loops s)) (loops ?s) = loops s
       \<and> analysisProgress (resume i (Inr r) ?s) = js_or (field st ''progress'') (JNum 0)
       \<and> analysisMessage (resume i (Inr r) ?s)
           = js_or (field st ''message'') (JStr msg_analyzing)"
    by simp
  from assms(6) have inv: "page_inv t" by (rule page_inv_reachable)
  then have 2: "list_all (\<lambda>l. in_flight l = 0) (loops t)"
    and 3: "\<not> isAnalyzing t \<longrightarrow> \<not> list_ex interval_set (loops t)"
    by (auto simp: page_inv_def)
  from inv have u: "\<forall>a < length (loops t). \<forall>b < length (loops t).
      interval_set (loops t ! a) \<longrightarrow> interval_set (loops t ! b) \<longrightarrow> a = b"
    by (simp add: page_inv_def)
  have 4: "length (filter interval_set (loops t)) \<le> 1"
  proof (rule ccontr)
    assume "\<not> length (filter interval_set (loops t)) \<le> 1"
    then have "2 \<le> length (filter interval_set (loops t))" by simp
    then obtain x y zs where f: "filter interval_set (loops t) = x # y # zs"
      by (cases "filter interval_set (loops t)"; cases "tl (filter interval_set (loops t))")
        auto
    then obtain us vs where "loops t = us @ x # vs" "\<forall>u \<in> set us. \<not> interval_set u"
      "interval_set x" "y # zs = filter interval_set vs"
      by (auto simp: filter_eq_Cons_iff)
    moreover then obtain ws xs where "vs = ws @ y # xs" "interval_set y"
      by (metis filter_eq_Cons_iff)
    ultimately have l: "loops t = us @ x # ws @ y # xs" "interval_set x" "interval_set y"
      by simp_all
    let ?a = "length us" and ?b = "length us + Suc (length ws)"
    from l have "?a < length (loops t)" "?b < length (loops t)"
      "interval_set (loops t ! ?a)" "interval_set (loops t ! ?b)"
      by (simp_all add: nth_append)
    with u have "?a = ?b" by blast
    then show False by simp
  qed
  from 1 2 3 4 show ?thesis by blast
qed

theorem start_keeps_earlier_loops_witness:
  "0 < in_flight (loops job_A_failed ! 0)
   \<and> page_reachable user_kim (tick 0 network_error polling_A)
   \<and> take 1 (loops (handleStartAnalysis user_kim (accepted ''job-B'') job_A_failed))
       = loops job_A_failed
   \<and> analysisProgress (resume 0 (Inr (Some (JObj [(''data'', processing 77)])))
        (handleStartAnalysis user_kim (accepted ''job-B'') job_A_failed)) = JNum 77
   \<and> \<not> isAnalyzing (tick 0 network_error polling_A)
   \<and> \<not> list_ex interval_set (loops (tick 0 network_error polling_A))"
proof -
  have j: "0 < length (loops job_A_failed)" "0 < in_flight (loops job_A_failed ! 0)"
    "length (loops job_A_failed) = 1"
    by (simp_all add: job_A_failed_def polling_A_def page_defs)
  have r: "opt_field (Some (JObj [(''data'', processing 77)])) ''data'' = Some (processing 77)"
    "truthy (processing 77)" "field (processing 77) ''status'' \<noteq> Some (JStr ''completed'')"
    "js_or (field (processing 77) ''progress'') (JNum 0) = JNum 77"
    by (simp_all add: processing_def)
  have "page_reachable user_kim
      (page_step user_kim (IntervalTick 0 network_error)
         (page_step user_kim (ClickStart (accepted ''job-A'')) page0))"
    by (intro page_reachable_step page_reachable_init)
  then have p: "page_reachable user_kim (tick 0 network_error polling_A)"
    unfolding start_job_A by simp
  have n: "\<not> isAnalyzing (tick 0 network_error polling_A)"
    by (simp add: polling_A_def page_defs)
  from start_keeps_earlier_loops [OF j(1,2) r(1-3) p, of user_kim "accepted ''job-B''"] j r(4) p n
  show ?thesis by simp
qed

text \<open>
  C3 as stated fails, in a run the user can produce. Two ticks of the first job wait for
  their answers; one query fails, which stops the first loop and enables the start button
  while the other query is still pending. The user starts a second job, whose first tick
  reports 40 percent. Then the pending query of the superseded loop is answered with 77
  percent: the page, which shows the second job, displays 77.
\<close>

theorem stale_answer_overwrites_new_job:
  "\<not> isAnalyzing job_A_failed
   \<and> in_flight (loops job_A_failed ! 0) = 1
   \<and> \<not> interval_set (loops job_B_polling ! 0)
   \<and> diagnosisId (loops job_B_polling ! 1) = JStr ''job-B''
   \<and> interval_set (loops job_B_polling ! 1)
   \<and> analysisProgress job_B_polling = JNum 40
   \<and> analysisProgress (resume 0 (status_response (processing 77)) job_B_polling) = JNum 77
   \<and> isAnalyzing (resume 0 (status_response (processing 77)) job_B_polling)"
  by (simp add: job_B_polling_def job_A_failed_def polling_A_def maxAttempts_def page_defs)

end
